theory Spec2Isabelle
  imports Complex_Main
begin

section \<open>Values, dictionaries and strings of the Python runtime\<close>

text \<open>
  The geocoder of \<^verbatim>\<open>frcmap/frcgeocoder/geocoder.py\<close> works on JSON-like
  dictionaries. A field value is \<^verbatim>\<open>None\<close>, a boolean, an integer, a float or a
  string. Floats are modelled as real numbers: rounding, infinities and NaN are outside
  the model.
\<close>

datatype pyval = PNone | PBool bool | PInt int | PFloat real | PStr string

text \<open>
  A Python \<^verbatim>\<open>dict\<close> keeps its keys in insertion order, so a dictionary is an
  association list. Assigning to a key that is present replaces the value in place;
  a new key goes to the end.
\<close>

type_synonym pydict = "(string \<times> pyval) list"

datatype pyerror =
    KeyError string
  | TypeError
  | AttributeError
  | RuntimeError
  | JSONDecodeError
  | IsADirectoryError

primrec dict_set :: "'k \<Rightarrow> 'v \<Rightarrow> ('k \<times> 'v) list \<Rightarrow> ('k \<times> 'v) list" where
  "dict_set k v [] = [(k, v)]"
| "dict_set k v (p # ps) = (if fst p = k then (k, v) # ps else p # dict_set k v ps)"

text \<open>\<^verbatim>\<open>d.update(other)\<close>: the items of \<^verbatim>\<open>other\<close> are assigned in their order.\<close>

definition dict_update :: "('k \<times> 'v) list \<Rightarrow> ('k \<times> 'v) list \<Rightarrow> ('k \<times> 'v) list" where
  "dict_update d other = fold (\<lambda>(k, v). dict_set k v) other d"

text \<open>
  Python's \<^verbatim>\<open>==\<close> on field values: booleans, integers and floats compare by their
  numeric value (\<^verbatim>\<open>True == 1 == 1.0\<close>), everything else by type and content.
\<close>

fun num_val :: "pyval \<Rightarrow> real option" where
  "num_val (PBool b) = Some (if b then 1 else 0)"
| "num_val (PInt i) = Some (of_int i)"
| "num_val (PFloat r) = Some r"
| "num_val PNone = None"
| "num_val (PStr s) = None"

definition py_eq :: "pyval \<Rightarrow> pyval \<Rightarrow> bool" where
  "py_eq a b =
     (case (num_val a, num_val b) of
        (Some x, Some y) \<Rightarrow> x = y
      | (None, None) \<Rightarrow> a = b
      | _ \<Rightarrow> False)"

text \<open>Truth value of a field in a condition.\<close>

fun truthy :: "pyval \<Rightarrow> bool" where
  "truthy PNone = False"
| "truthy (PBool b) = b"
| "truthy (PInt i) = (i \<noteq> 0)"
| "truthy (PFloat r) = (r \<noteq> 0)"
| "truthy (PStr s) = (s \<noteq> [])"

text \<open>
  Whitespace as \<^verbatim>\<open>str.strip\<close> and \<^verbatim>\<open>str.split\<close> see it (\<^verbatim>\<open>str.isspace\<close>), for
  the code points below 256 that a \<^typ>\<open>char\<close> holds: tab, line feed, vertical tab,
  form feed, carriage return, the four separators \<^verbatim>\<open>\x1c\<close> to \<^verbatim>\<open>\x1f\<close>, space,
  next line (\<^verbatim>\<open>\x85\<close>) and no-break space (\<^verbatim>\<open>\xa0\<close>).
\<close>

definition is_space :: "char \<Rightarrow> bool" where
  "is_space c = (of_char c \<in> {9, 10, 11, 12, 13, 28, 29, 30, 31, 32, 133, 160 :: nat})"

definition py_strip :: "string \<Rightarrow> string" where
  "py_strip s = rev (dropWhile is_space (rev (dropWhile is_space s)))"

text \<open>\<^verbatim>\<open>s.split()\<close>: the maximal runs of non-whitespace characters.\<close>

fun split_from :: "string \<Rightarrow> string \<Rightarrow> string list" where
  "split_from w [] = (if w = [] then [] else [w])"
| "split_from w (c # cs) =
     (if is_space c then (if w = [] then split_from [] cs else w # split_from [] cs)
      else split_from (w @ [c]) cs)"

definition py_split :: "string \<Rightarrow> string list" where
  "py_split s = split_from [] s"

fun py_join :: "string \<Rightarrow> string list \<Rightarrow> string" where
  "py_join sep [] = []"
| "py_join sep [x] = x"
| "py_join sep (x # y # ys) = x @ sep @ py_join sep (y # ys)"

text \<open>
  \<^verbatim>\<open>str(x)\<close> inside an f-string. The decimal rendering of an integer is computed;
  the rendering of a float belongs to the runtime and is a parameter.
\<close>

definition digit_char :: "nat \<Rightarrow> char" where
  "digit_char n = ''0123456789'' ! (n mod 10)"

fun str_nat :: "nat \<Rightarrow> string" where
  "str_nat n = (if n < 10 then [digit_char n] else str_nat (n div 10) @ [digit_char n])"

declare str_nat.simps [simp del]

definition str_int :: "int \<Rightarrow> string" where
  "str_int i = (if i < 0 then CHR ''-'' # str_nat (nat (- i)) else str_nat (nat i))"

fun py_str :: "(real \<Rightarrow> string) \<Rightarrow> pyval \<Rightarrow> string" where
  "py_str fmt PNone = ''None''"
| "py_str fmt (PBool b) = (if b then ''True'' else ''False'')"
| "py_str fmt (PInt i) = str_int i"
| "py_str fmt (PFloat r) = fmt r"
| "py_str fmt (PStr s) = s"

section \<open>Address synthesis\<close>

definition notNone :: "pyval \<Rightarrow> pyval" where
  "notNone v = (if v \<noteq> PNone then v else PStr [])"

definition read :: "pydict \<Rightarrow> string \<Rightarrow> pyval" where
  "read obj key = (case map_of obj key of Some v \<Rightarrow> notNone v | None \<Rightarrow> PStr [])"

text \<open>
  \<^verbatim>\<open>make_team_address\<close> formats the five fields into one f-string with single
  spaces between them, splits it at whitespace and joins the words with single spaces.
\<close>

definition make_team_address :: "(real \<Rightarrow> string) \<Rightarrow> pydict \<Rightarrow> string option" where
  "make_team_address fmt data =
     (let addr = py_join '' '' (py_split (
            py_str fmt (read data ''school_name'') @ '' '' @
            py_str fmt (read data ''city'') @ '' '' @
            py_str fmt (read data ''state_prov'') @ '' '' @
            py_str fmt (read data ''postal_code'') @ '' '' @
            py_str fmt (read data ''country'')))
      in if addr = [] then None else Some addr)"

text \<open>
  \<^verbatim>\<open>make_event_address\<close> joins the list of the six fields with \<^verbatim>\<open>" ".join\<close>,
  which raises \<^verbatim>\<open>TypeError\<close> on an item that is not a string, and strips the result.
\<close>

fun str_item :: "pyval \<Rightarrow> string option" where
  "str_item (PStr s) = Some s"
| "str_item v = None"

definition event_fields :: "string list" where
  "event_fields = [''venue'', ''address'', ''city'', ''state_prov'', ''postal_code'', ''country'']"

definition make_event_address :: "pydict \<Rightarrow> pyerror + string option" where
  "make_event_address data =
     (case those (map (\<lambda>k. str_item (read data k)) event_fields) of
        None \<Rightarrow> Inl TypeError
      | Some fs \<Rightarrow>
          (let addr = py_strip (py_join '' '' fs)
           in Inr (if addr = [] then None else Some addr)))"

section \<open>The geocoder object and its surroundings\<close>

text \<open>
  A batch (\<^verbatim>\<open>InfoDict\<close>) maps an identifier to an entity record. The event pipeline
  can store plain field values under keys of the batch itself (line 214 calls
  \<^verbatim>\<open>events.update\<close>), so an entry of a batch is a record or a scalar.
\<close>

datatype item = Rec pydict | Scalar pyval

type_synonym infodict = "(string \<times> item) list"

type_synonym locationdict = "(string \<times> pydict) list"

text \<open>
  The archive directory: a listing of names, each a directory, a file holding a JSON
  object of identifier to location, or a file that \<^verbatim>\<open>json.load\<close> rejects.
\<close>

datatype fsentry = Directory | JsonFile locationdict | BadFile

text \<open>
  What a call can change besides the batch: the archive directory, the addresses sent to
  the geocoding provider so far, and the number of random draws taken so far.
\<close>

record world =
  archive_dir :: "(string \<times> fsentry) list"
  calls :: "string list"
  draws :: nat

text \<open>
  What the runtime supplies: the text of a float, and \<^verbatim>\<open>random.gauss\<close>, whose
  \<open>n\<close>-th draw for mean \<open>mu\<close> and deviation \<open>sigma\<close> is \<open>gauss rt n mu sigma\<close>.
\<close>

record runtime =
  str_float :: "real \<Rightarrow> string"
  gauss :: "nat \<Rightarrow> real \<Rightarrow> real \<Rightarrow> real"

text \<open>
  The fields of \<^verbatim>\<open>FRCGeocoder\<close>. \<open>teams\<close> and \<open>events\<close> are the override
  maps. \<open>gmaps addr\<close> is \<^verbatim>\<open>self.gmaps.geocode(addr)[0]["geometry"]["location"]\<close>: the
  latitude and longitude of the first result, or \<open>None\<close> when that expression raises
  (provider error, empty result list). \<open>first_api\<close> is
  \<^verbatim>\<open>self.first_api.enhance_event_data\<close>: \<open>Inr r\<close> when it returns leaving the record
  as \<open>r\<close>, \<open>Inl r\<close> when it raises leaving the record as \<open>r\<close>.
\<close>

record geocoder =
  teams :: locationdict
  events :: locationdict
  gmaps :: "string \<Rightarrow> (real \<times> real) option"
  first_api :: "pydict \<Rightarrow> pydict + pydict"
  team_archive :: locationdict
  event_archive :: locationdict

definition UNKNOWN :: pydict where
  "UNKNOWN = [(''lat'', PNone), (''lng'', PNone)]"

subsection \<open>Reading the archives\<close>

definition is_digit :: "char \<Rightarrow> bool" where
  "is_digit c = (48 \<le> (of_char c :: nat) \<and> (of_char c :: nat) \<le> 57)"

definition int_of_digits :: "string \<Rightarrow> nat" where
  "int_of_digits ds = foldl (\<lambda>n c. 10 * n + (of_char c - 48)) 0 ds"

text \<open>
  \<^verbatim>\<open>re.match(r"all_team_locations_(\d\d\d\d).json", file)\<close>: anchored at the start
  only, and the dot matches any character but a line feed. The result is
  \<^verbatim>\<open>int(m.group(1))\<close>.
\<close>

definition match_team_file :: "string \<Rightarrow> nat option" where
  "match_team_file file =
     (let ds = take 4 (drop 19 file)
      in if take 19 file = ''all_team_locations_'' \<and> length ds = 4 \<and> list_all is_digit ds
            \<and> (case drop 23 file of
                  [] \<Rightarrow> False
                | c # rest \<Rightarrow> c \<noteq> CHR 0x0A \<and> take 4 rest = ''json'')
         then Some (int_of_digits ds) else None)"

definition lookup :: "('k \<times> 'v) list \<Rightarrow> 'k \<Rightarrow> pyerror + 'v" where
  "lookup d k = (case map_of d k of None \<Rightarrow> Inl (KeyError []) | Some v \<Rightarrow> Inr v)"

definition json_load :: "(string \<times> fsentry) list \<Rightarrow> string \<Rightarrow> pyerror + locationdict" where
  "json_load dir name =
     (case map_of dir name of Some (JsonFile a) \<Rightarrow> Inr a | _ \<Rightarrow> Inl JSONDecodeError)"

text \<open>The names in the directory for which \<^verbatim>\<open>os.path.isfile\<close> holds.\<close>

definition regular_files :: "(string \<times> fsentry) list \<Rightarrow> string list" where
  "regular_files dir = map fst (filter (\<lambda>(f, e). e \<noteq> Directory) dir)"

definition team_years :: "(string \<times> fsentry) list \<Rightarrow> (nat \<times> string) list" where
  "team_years dir =
     fold (\<lambda>file years. case match_team_file file of
                            None \<Rightarrow> years
                          | Some y \<Rightarrow> dict_set y file years)
          (regular_files dir) []"

definition read_team_archive :: "(string \<times> fsentry) list \<Rightarrow> pyerror + locationdict" where
  "read_team_archive dir =
     (let years = team_years dir
      in if length years > 0 then
           (case lookup years (Max (set (map fst years))) of
              Inl e \<Rightarrow> Inl e
            | Inr latest \<Rightarrow> json_load dir latest)
         else Inr [])"

definition read_event_archive :: "(string \<times> fsentry) list \<Rightarrow> pyerror + locationdict" where
  "read_event_archive dir =
     (case map_of dir ''all_event_locations.json'' of
        None \<Rightarrow> Inr []
      | Some Directory \<Rightarrow> Inr []
      | Some _ \<Rightarrow> json_load dir ''all_event_locations.json'')"

definition geocoder_init ::
  "locationdict \<Rightarrow> locationdict \<Rightarrow> (string \<Rightarrow> (real \<times> real) option) \<Rightarrow>
   (pydict \<Rightarrow> pydict + pydict) \<Rightarrow> (string \<times> fsentry) list \<Rightarrow> pyerror + geocoder" where
  "geocoder_init tms evs gm api dir =
     (case read_team_archive dir of
        Inl e \<Rightarrow> Inl e
      | Inr ta \<Rightarrow>
          (case read_event_archive dir of
             Inl e \<Rightarrow> Inl e
           | Inr ea \<Rightarrow>
               Inr \<lparr>teams = tms, events = evs, gmaps = gm, first_api = api,
                    team_archive = ta, event_archive = ea\<rparr>))"

subsection \<open>The no-location test and saving the archives\<close>

text \<open>
  \<^verbatim>\<open>item["lat"] == None or item["lng"] == None\<close>: a missing key raises, and the
  second operand is evaluated only when the first is false.
\<close>

definition noloc :: "pydict \<Rightarrow> pyerror + bool" where
  "noloc obj =
     (case map_of obj ''lat'' of
        None \<Rightarrow> Inl (KeyError ''lat'')
      | Some la \<Rightarrow>
          if la = PNone then Inr True
          else (case map_of obj ''lng'' of
                  None \<Rightarrow> Inl (KeyError ''lng'')
                | Some lo \<Rightarrow> Inr (lo = PNone)))"

text \<open>The dictionary comprehension of both save methods. Indexing a scalar raises.\<close>

fun archive_data :: "infodict \<Rightarrow> pyerror + locationdict" where
  "archive_data [] = Inr []"
| "archive_data ((k0, Scalar v) # rest) = Inl TypeError"
| "archive_data ((k0, Rec v0) # rest) =
     (case noloc v0 of
        Inl e \<Rightarrow> Inl e
      | Inr nl \<Rightarrow>
          (case archive_data rest of
             Inl e \<Rightarrow> Inl e
           | Inr d \<Rightarrow>
               Inr (if nl then d
                    else (k0, filter (\<lambda>(k1, v1). k1 \<in> set [''lat'', ''lng'']) v0) # d)))"

definition write_json ::
  "string \<Rightarrow> locationdict \<Rightarrow> world \<Rightarrow> pyerror + world" where
  "write_json name d w =
     (if map_of (archive_dir w) name = Some Directory then Inl IsADirectoryError
      else Inr (w\<lparr>archive_dir := dict_set name (JsonFile d) (archive_dir w)\<rparr>))"

definition team_file :: "int \<Rightarrow> string" where
  "team_file year = ''all_team_locations_'' @ str_int year @ ''.json''"

definition save_team_archive :: "infodict \<Rightarrow> int \<Rightarrow> world \<Rightarrow> pyerror + world" where
  "save_team_archive tms year w =
     (case archive_data tms of
        Inl e \<Rightarrow> Inl e
      | Inr d \<Rightarrow> write_json (team_file year) d w)"

definition save_event_archive :: "infodict \<Rightarrow> world \<Rightarrow> pyerror + world" where
  "save_event_archive evs w =
     (case archive_data evs of
        Inl e \<Rightarrow> Inl e
      | Inr d \<Rightarrow> write_json ''all_event_locations.json'' d w)"

subsection \<open>Perturbing a location\<close>

text \<open>
  \<^verbatim>\<open>obj["lat"] = random.gauss(obj["lat"], sigma)\<close>, then the same for \<^verbatim>\<open>"lng"\<close>,
  with the default \<^verbatim>\<open>sigma=0.001\<close>. \<^verbatim>\<open>random.gauss\<close> computes with its mean, so a
  mean that is no number raises.
\<close>

definition randomnize_location :: "runtime \<Rightarrow> pydict \<Rightarrow> nat \<Rightarrow> pyerror + (pydict \<times> nat)" where
  "randomnize_location rt obj n =
     (case map_of obj ''lat'' of
        None \<Rightarrow> Inl (KeyError ''lat'')
      | Some la \<Rightarrow>
          (case num_val la of
             None \<Rightarrow> Inl TypeError
           | Some mu1 \<Rightarrow>
               (let obj1 = dict_set ''lat'' (PFloat (gauss rt n mu1 (1 / 1000))) obj
                in case map_of obj1 ''lng'' of
                     None \<Rightarrow> Inl (KeyError ''lng'')
                   | Some lo \<Rightarrow>
                       (case num_val lo of
                          None \<Rightarrow> Inl TypeError
                        | Some mu2 \<Rightarrow>
                            Inr (dict_set ''lng'' (PFloat (gauss rt (n + 1) mu2 (1 / 1000))) obj1,
                                 n + 2)))))"

subsection \<open>Live geocoding\<close>

text \<open>
  Both methods read \<^verbatim>\<open>team['key']\<close> for the log line before anything else happens
  on either branch, outside the \<^verbatim>\<open>try\<close>. The provider is called once; the bare
  \<^verbatim>\<open>except\<close> turns its failure into \<^verbatim>\<open>UNKNOWN\<close>.
\<close>

definition geolocate_team :: "geocoder \<Rightarrow> runtime \<Rightarrow> pydict \<Rightarrow> world \<Rightarrow> pyerror + (pydict \<times> world)" where
  "geolocate_team self rt team w =
     (case make_team_address (str_float rt) team of
        None \<Rightarrow>
          (case map_of team ''key'' of
             None \<Rightarrow> Inl (KeyError ''key'')
           | Some k \<Rightarrow> Inr (dict_update team UNKNOWN, w))
      | Some addr \<Rightarrow>
          (case map_of team ''key'' of
             None \<Rightarrow> Inl (KeyError ''key'')
           | Some k \<Rightarrow>
               (case gmaps self addr of
                  Some (la, lo) \<Rightarrow>
                    Inr (dict_update team [(''lat'', PFloat la), (''lng'', PFloat lo)],
                         w\<lparr>calls := calls w @ [addr]\<rparr>)
                | None \<Rightarrow> Inr (dict_update team UNKNOWN, w\<lparr>calls := calls w @ [addr]\<rparr>))))"

definition geolocate_event :: "geocoder \<Rightarrow> pydict \<Rightarrow> world \<Rightarrow> pyerror + (pydict \<times> world)" where
  "geolocate_event self event w =
     (case make_event_address event of
        Inl e \<Rightarrow> Inl e
      | Inr None \<Rightarrow>
          (case map_of event ''key'' of
             None \<Rightarrow> Inl (KeyError ''key'')
           | Some k \<Rightarrow> Inr (dict_update event UNKNOWN, w))
      | Inr (Some addr) \<Rightarrow>
          (case map_of event ''key'' of
             None \<Rightarrow> Inl (KeyError ''key'')
           | Some k \<Rightarrow>
               (case gmaps self addr of
                  Some (la, lo) \<Rightarrow>
                    Inr (dict_update event [(''lat'', PFloat la), (''lng'', PFloat lo)],
                         w\<lparr>calls := calls w @ [addr]\<rparr>)
                | None \<Rightarrow> Inr (dict_update event UNKNOWN, w\<lparr>calls := calls w @ [addr]\<rparr>))))"

subsection \<open>Collision deduplication\<close>

definition location_tuple :: "pydict \<Rightarrow> pyerror + (pyval \<times> pyval)" where
  "location_tuple obj =
     (case map_of obj ''lat'' of
        None \<Rightarrow> Inl (KeyError ''lat'')
      | Some la \<Rightarrow>
          (case map_of obj ''lng'' of
             None \<Rightarrow> Inl (KeyError ''lng'')
           | Some lo \<Rightarrow> Inr (la, lo)))"

text \<open>\<^verbatim>\<open>loc in ulocs\<close>: some key of the dictionary is equal to the tuple.\<close>

definition loc_eq :: "pyval \<times> pyval \<Rightarrow> pyval \<times> pyval \<Rightarrow> bool" where
  "loc_eq a b = (py_eq (fst a) (fst b) \<and> py_eq (snd a) (snd b))"

definition loc_in :: "pyval \<times> pyval \<Rightarrow> ((pyval \<times> pyval) \<times> string) list \<Rightarrow> bool" where
  "loc_in loc ulocs = list_ex (\<lambda>(l, k). loc_eq loc l) ulocs"

text \<open>
  The loop of \<^verbatim>\<open>__dedup_locations\<close>, from the dictionary \<open>ulocs\<close> built so far and
  the number \<open>n\<close> of draws taken so far. It changes fields of records only, so the
  entries are visited in the order of the batch.
\<close>

fun dedup_from ::
  "runtime \<Rightarrow> ((pyval \<times> pyval) \<times> string) list \<Rightarrow> nat \<Rightarrow> infodict \<Rightarrow> pyerror + (infodict \<times> nat)" where
  "dedup_from rt ulocs n [] = Inr ([], n)"
| "dedup_from rt ulocs n ((key, Scalar v) # rest) = Inl TypeError"
| "dedup_from rt ulocs n ((key, Rec obj) # rest) =
     (case noloc obj of
        Inl e \<Rightarrow> Inl e
      | Inr True \<Rightarrow>
          (case dedup_from rt ulocs n rest of
             Inl e \<Rightarrow> Inl e
           | Inr (rest', n') \<Rightarrow> Inr ((key, Rec obj) # rest', n'))
      | Inr False \<Rightarrow>
          (case location_tuple obj of
             Inl e \<Rightarrow> Inl e
           | Inr loc \<Rightarrow>
               if loc_in loc ulocs then
                 (case randomnize_location rt obj n of
                    Inl e \<Rightarrow> Inl e
                  | Inr (obj', n1) \<Rightarrow>
                      (case dedup_from rt ulocs n1 rest of
                         Inl e \<Rightarrow> Inl e
                       | Inr (rest', n') \<Rightarrow> Inr ((key, Rec obj') # rest', n')))
               else
                 (case dedup_from rt (ulocs @ [(loc, key)]) n rest of
                    Inl e \<Rightarrow> Inl e
                  | Inr (rest', n') \<Rightarrow> Inr ((key, Rec obj) # rest', n'))))"

definition dedup_locations :: "runtime \<Rightarrow> infodict \<Rightarrow> world \<Rightarrow> pyerror + (infodict \<times> world)" where
  "dedup_locations rt objects w =
     (case dedup_from rt [] (draws w) objects of
        Inl e \<Rightarrow> Inl e
      | Inr (objects', n') \<Rightarrow> Inr (objects', w\<lparr>draws := n'\<rparr>))"

section \<open>The team pipeline\<close>

text \<open>
  One turn of the loop of \<^verbatim>\<open>populate_team_locations\<close>. An exception leaves the batch
  partly updated; the model returns the exception alone.
\<close>

definition locate_team ::
  "geocoder \<Rightarrow> runtime \<Rightarrow> string \<Rightarrow> item \<Rightarrow> world \<Rightarrow> pyerror + (item \<times> world)" where
  "locate_team self rt key team w =
     (case map_of (teams self) key of
        Some ov \<Rightarrow>
          (case team of
             Scalar v \<Rightarrow> Inl AttributeError
           | Rec r \<Rightarrow> Inr (Rec (dict_update r ov), w))
      | None \<Rightarrow>
          (case map_of (team_archive self) key of
             Some a \<Rightarrow>
               (case team of
                  Scalar v \<Rightarrow> Inl AttributeError
                | Rec r \<Rightarrow> Inr (Rec (dict_update r a), w))
           | None \<Rightarrow>
               (case team of
                  Scalar v \<Rightarrow> Inl TypeError
                | Rec r \<Rightarrow>
                    (case geolocate_team self rt r w of
                       Inl e \<Rightarrow> Inl e
                     | Inr (r', w') \<Rightarrow> Inr (Rec r', w')))))"

fun resolve_teams ::
  "geocoder \<Rightarrow> runtime \<Rightarrow> infodict \<Rightarrow> world \<Rightarrow> pyerror + (infodict \<times> world)" where
  "resolve_teams self rt [] w = Inr ([], w)"
| "resolve_teams self rt ((key, team) # rest) w =
     (case locate_team self rt key team w of
        Inl e \<Rightarrow> Inl e
      | Inr (team', w1) \<Rightarrow>
          (case resolve_teams self rt rest w1 of
             Inl e \<Rightarrow> Inl e
           | Inr (rest', w2) \<Rightarrow> Inr ((key, team') # rest', w2)))"

definition populate_team_locations ::
  "geocoder \<Rightarrow> runtime \<Rightarrow> infodict \<Rightarrow> int \<Rightarrow> world \<Rightarrow> pyerror + (infodict \<times> world)" where
  "populate_team_locations self rt tms year w =
     (case resolve_teams self rt tms w of
        Inl e \<Rightarrow> Inl e
      | Inr (tms1, w1) \<Rightarrow>
          (case dedup_locations rt tms1 w1 of
             Inl e \<Rightarrow> Inl e
           | Inr (tms2, w2) \<Rightarrow>
               (case save_team_archive tms2 year w2 of
                  Inl e \<Rightarrow> Inl e
                | Inr w3 \<Rightarrow> Inr (tms2, w3))))"

section \<open>The event pipeline\<close>

text \<open>
  The \<^verbatim>\<open>try\<close> block of lines 219 to 223: any exception of the enrichment or of
  \<^verbatim>\<open>__geolocate_event\<close> is caught and leaves the record as it then is.
\<close>

definition enhance_and_geolocate :: "geocoder \<Rightarrow> pydict \<Rightarrow> world \<Rightarrow> pydict \<times> world" where
  "enhance_and_geolocate self event w =
     (case first_api self event of
        Inl event' \<Rightarrow> (event', w)
      | Inr event' \<Rightarrow>
          (case geolocate_event self event' w of
             Inl e \<Rightarrow> (event', w)
           | Inr (event'', w') \<Rightarrow> (event'', w')))"

text \<open>
  One turn of the loop of \<^verbatim>\<open>populate_event_locations\<close> for the entry \<open>key\<close> whose
  record is \<open>event\<close>, in the batch \<open>evs\<close>. Line 214 updates the batch \<open>evs\<close>, not the
  record: the fields of the archived location become entries of the batch. If one of
  them is named \<open>key\<close>, the record is no longer the entry of the batch, and line 229
  writes to a record the batch does not hold.
\<close>

definition locate_event ::
  "geocoder \<Rightarrow> string \<Rightarrow> pydict \<Rightarrow> infodict \<Rightarrow> world \<Rightarrow> pyerror + (infodict \<times> world)" where
  "locate_event self key event evs w =
     (let event1 = (case map_of (events self) key of
                      Some ov \<Rightarrow> dict_update event ov
                    | None \<Rightarrow> event);
          evs1 = dict_set key (Rec event1) evs
      in case noloc event1 of
           Inl e \<Rightarrow> Inl e
         | Inr nl1 \<Rightarrow>
             (let (held, event2, evs2, w2) =
                (if nl1 then
                   (case map_of (event_archive self) key of
                      Some a \<Rightarrow>
                        (key \<notin> set (map fst a), event1,
                         dict_update evs1 (map (\<lambda>(f, v). (f, Scalar v)) a), w)
                    | None \<Rightarrow>
                        if (case map_of event1 ''is_official'' of
                              None \<Rightarrow> False
                            | Some v \<Rightarrow> truthy v)
                        then (let (event', w') = enhance_and_geolocate self event1 w
                              in (True, event', dict_set key (Rec event') evs1, w'))
                        else (True, event1, evs1, w))
                 else (True, event1, evs1, w))
              in case noloc event2 of
                   Inl e \<Rightarrow> Inl e
                 | Inr nl2 \<Rightarrow>
                     if nl2 then
                       Inr (if held
                            then dict_set key (Rec (dict_set ''ignore'' (PBool True) event2)) evs2
                            else evs2, w2)
                     else Inr (evs2, w2)))"

text \<open>
  The \<^verbatim>\<open>for\<close> loop over \<^verbatim>\<open>events.items()\<close>. The iterator is at position \<open>i\<close> of
  the live batch; before it yields the next entry it raises \<^verbatim>\<open>RuntimeError\<close> if the
  number of entries changed during the turn. A scalar entry has no \<^verbatim>\<open>update\<close> and
  cannot be indexed by \<^verbatim>\<open>"lat"\<close>.
\<close>

function events_loop ::
  "geocoder \<Rightarrow> nat \<Rightarrow> infodict \<Rightarrow> world \<Rightarrow> pyerror + (infodict \<times> world)" where
  "events_loop self i evs w =
     (if length evs \<le> i then Inr (evs, w)
      else
        (case evs ! i of
           (key, Scalar v) \<Rightarrow>
             Inl (if map_of (events self) key = None then TypeError else AttributeError)
         | (key, Rec event) \<Rightarrow>
             (case locate_event self key event evs w of
                Inl e \<Rightarrow> Inl e
              | Inr (evs', w') \<Rightarrow>
                  if length evs' \<noteq> length evs then Inl RuntimeError
                  else events_loop self (i + 1) evs' w')))"
  by pat_completeness auto
termination
  by (relation "measure (\<lambda>(self, i, evs, w). length evs - i)") auto

declare events_loop.simps [simp del]

definition populate_event_locations ::
  "geocoder \<Rightarrow> runtime \<Rightarrow> infodict \<Rightarrow> world \<Rightarrow> pyerror + (infodict \<times> world)" where
  "populate_event_locations self rt evs w =
     (case events_loop self 0 evs w of
        Inl e \<Rightarrow> Inl e
      | Inr (evs1, w1) \<Rightarrow>
          (case save_event_archive evs1 w1 of
             Inl e \<Rightarrow> Inl e
           | Inr w2 \<Rightarrow> dedup_locations rt evs1 w2))"

section \<open>Notions of the specification\<close>

text \<open>
  From the words of the specification: an entity has a location when both \<^verbatim>\<open>lat\<close>
  and \<^verbatim>\<open>lng\<close> are present and not null. The second definition is the part of a
  record an archive keeps.
\<close>

definition has_location :: "item \<Rightarrow> bool" where
  "has_location it =
     (case it of
        Scalar v \<Rightarrow> False
      | Rec r \<Rightarrow>
          (case (map_of r ''lat'', map_of r ''lng'') of
             (Some la, Some lo) \<Rightarrow> la \<noteq> PNone \<and> lo \<noteq> PNone
           | _ \<Rightarrow> False))"

definition lat_lng_only :: "item \<Rightarrow> pydict" where
  "lat_lng_only it =
     (case it of
        Scalar v \<Rightarrow> []
      | Rec r \<Rightarrow> filter (\<lambda>(f, v). f = ''lat'' \<or> f = ''lng'') r)"

text \<open>
  From the words of the specification: the location of an entity that has one, and the
  collision of an entity with the entities iterated before it, which is that its
  location is equal, as a pair, to the location of one of them. \<open>dup_in\<close> is the same
  notion started from a dictionary of pairs that are taken already.
\<close>

definition loc_of :: "item \<Rightarrow> (pyval \<times> pyval) option" where
  "loc_of it =
     (case it of
        Scalar v \<Rightarrow> None
      | Rec r \<Rightarrow>
          (case (map_of r ''lat'', map_of r ''lng'') of
             (Some la, Some lo) \<Rightarrow> if la \<noteq> PNone \<and> lo \<noteq> PNone then Some (la, lo) else None
           | _ \<Rightarrow> None))"

definition dup_in :: "((pyval \<times> pyval) \<times> string) list \<Rightarrow> infodict \<Rightarrow> item \<Rightarrow> bool" where
  "dup_in ulocs earlier it =
     (case loc_of it of
        None \<Rightarrow> False
      | Some l \<Rightarrow>
          loc_in l ulocs
          \<or> list_ex (\<lambda>(k, it'). case loc_of it' of None \<Rightarrow> False | Some l' \<Rightarrow> loc_eq l l') earlier)"

definition collides :: "infodict \<Rightarrow> item \<Rightarrow> bool" where
  "collides earlier it = dup_in [] earlier it"

text \<open>
  From the data model of the specification: a Location has \<^verbatim>\<open>lat\<close> and \<^verbatim>\<open>lng\<close>,
  both null or both numbers. \<open>is_location\<close> says it of a dictionary of an override map
  or of an archive, whose keys are distinct; \<open>proper_item\<close> of an entry of a batch.
  \<open>geocoded_addresses\<close> lists, in the order of the batch, the address of every team
  that is neither in the override map nor in the archive and has an address.
\<close>

definition proper_location :: "pydict \<Rightarrow> bool" where
  "proper_location d =
     (case (map_of d ''lat'', map_of d ''lng'') of
        (Some la, Some lo) \<Rightarrow>
          (la = PNone \<and> lo = PNone) \<or> (num_val la \<noteq> None \<and> num_val lo \<noteq> None)
      | _ \<Rightarrow> False)"

definition is_location :: "pydict \<Rightarrow> bool" where
  "is_location d = (distinct (map fst d) \<and> proper_location d)"

definition proper_item :: "item \<Rightarrow> bool" where
  "proper_item it = (case it of Rec r \<Rightarrow> proper_location r | Scalar v \<Rightarrow> False)"


text \<open>
  What the loop of \<^verbatim>\<open>populate_event_locations\<close> keeps true of every entry of the
  batch: it is a scalar that line 214 put there, or a record with a Location.
\<close>

definition scalar_or_proper :: "item \<Rightarrow> bool" where
  "scalar_or_proper it = (case it of Scalar v \<Rightarrow> True | Rec r \<Rightarrow> proper_location r)"



text \<open>
  The name of the team archive of a year as the specification has it,
  \<^verbatim>\<open>all_team_locations_<YYYY>.json\<close>: the year written with four decimal digits.
  It is stated on its own, not through the regular expression of the loader.
\<close>

definition year_stamped_name :: "nat \<Rightarrow> string" where
  "year_stamped_name y =
     ''all_team_locations_''
       @ [digit_char (y div 1000), digit_char (y div 100), digit_char (y div 10), digit_char y]
       @ ''.json''"


section \<open>Example inputs\<close>

definition empty_world :: world where
  "empty_world = \<lparr>archive_dir = [], calls = [], draws = 0\<rparr>"

text \<open>One event without a location whose identifier is in the event archive.\<close>

definition archived_event :: pydict where
  "archived_event = [(''key'', PStr ''2024txaus''), (''lat'', PNone), (''lng'', PNone)]"

definition archived_event_geocoder :: geocoder where
  "archived_event_geocoder =
     \<lparr>teams = [], events = [], gmaps = (\<lambda>addr. None), first_api = (\<lambda>r. Inr r),
      team_archive = [],
      event_archive = [(''2024txaus'', [(''lat'', PFloat 30), (''lng'', PFloat (- 97))])]\<rparr>"

definition two_teams :: infodict where
  "two_teams =
     [(''frc1'', Rec [(''key'', PStr ''frc1''), (''lat'', PFloat 10), (''lng'', PFloat 20)]),
      (''frc2'', Rec [(''key'', PStr ''frc2''), (''lat'', PNone), (''lng'', PNone)])]"

definition two_years_dir :: "(string \<times> fsentry) list" where
  "two_years_dir =
     [(''all_team_locations_2022.json'', JsonFile [(''frc1'', [(''lat'', PFloat 3), (''lng'', PFloat 4)])]),
      (''notes'', Directory),
      (''all_team_locations_2021.json'', JsonFile [(''frc1'', [(''lat'', PFloat 1), (''lng'', PFloat 2)])])]"

text \<open>The archive of 2022 beside a backup copy of a later one.\<close>

definition stray_backup_dir :: "(string \<times> fsentry) list" where
  "stray_backup_dir =
     [(''all_team_locations_2022.json'', JsonFile [(''frc1'', [(''lat'', PFloat 3), (''lng'', PFloat 4)])]),
      (''all_team_locations_2023.json.bak'', JsonFile [(''frc1'', [(''lat'', PFloat 5), (''lng'', PFloat 6)])])]"

definition shifting_runtime :: runtime where
  "shifting_runtime = \<lparr>str_float = (\<lambda>r. ''0.0''), gauss = (\<lambda>n mu sigma. mu + sigma)\<rparr>"

definition three_teams :: infodict where
  "three_teams =
     [(''frc1'', Rec [(''key'', PStr ''frc1''), (''lat'', PFloat 10), (''lng'', PFloat 20)]),
      (''frc2'', Rec [(''key'', PStr ''frc2''), (''lat'', PFloat 10), (''lng'', PFloat 20)]),
      (''frc3'', Rec [(''key'', PStr ''frc3''), (''lat'', PNone), (''lng'', PNone)])]"


definition twin_overrides :: geocoder where
  "twin_overrides =
     \<lparr>teams = [(''frc1'', [(''lat'', PFloat 10), (''lng'', PFloat 20)]),
               (''frc2'', [(''lat'', PFloat 10), (''lng'', PFloat 20)])],
      events = [(''2024txaus'', [(''lat'', PFloat 10), (''lng'', PFloat 20)]),
                (''2024txdal'', [(''lat'', PFloat 10), (''lng'', PFloat 20)])],
      gmaps = (\<lambda>addr. None), first_api = (\<lambda>r. Inr r),
      team_archive = [], event_archive = []\<rparr>"

definition bare_teams :: infodict where
  "bare_teams = [(''frc1'', Rec [(''key'', PStr ''frc1'')]), (''frc2'', Rec [(''key'', PStr ''frc2'')])]"

definition bare_events :: infodict where
  "bare_events =
     [(''2024txaus'', Rec [(''key'', PStr ''2024txaus''), (''lat'', PNone), (''lng'', PNone)]),
      (''2024txdal'', Rec [(''key'', PStr ''2024txdal''), (''lat'', PNone), (''lng'', PNone)])]"

text \<open>
  An override map whose entries carry \<^verbatim>\<open>lat\<close> only, and a team and an event without
  a location.
\<close>

definition half_override :: geocoder where
  "half_override =
     \<lparr>teams = [(''frc1'', [(''lat'', PFloat 10)])],
      events = [(''2024txaus'', [(''lat'', PFloat 10)])],
      gmaps = (\<lambda>addr. None), first_api = (\<lambda>r. Inr r),
      team_archive = [], event_archive = []\<rparr>"

definition unlocated_team :: infodict where
  "unlocated_team = [(''frc1'', Rec [(''key'', PStr ''frc1''), (''lat'', PNone), (''lng'', PNone)])]"

definition unlocated_event :: infodict where
  "unlocated_event =
     [(''2024txaus'', Rec [(''key'', PStr ''2024txaus''), (''lat'', PNone), (''lng'', PNone)])]"




section \<open>Properties of dictionaries\<close>

lemma map_of_dict_set: "map_of (dict_set k v d) k' = (if k' = k then Some v else map_of d k')"
  by (induction d) auto

lemma length_dict_set:
  "length (dict_set k v d) = (if k \<in> fst ` set d then length d else Suc (length d))"
  by (induction d) auto

lemma keys_dict_set: "fst ` set (dict_set k v d) = insert k (fst ` set d)"
  by (induction d) auto

lemma set_dict_set: "set (dict_set k v d) \<subseteq> insert (k, v) (set d)"
  by (induction d) auto

lemma fold_dict_set_map_of:
  "map_of (fold (\<lambda>(k, v). dict_set k v) other d) k' =
     (case map_of (rev other) k' of Some v \<Rightarrow> Some v | None \<Rightarrow> map_of d k')"
proof (induction other arbitrary: d)
  case Nil
  then show ?case by simp
next
  case (Cons p other)
  obtain k v where p: "p = (k, v)" by (cases p)
  show ?case
    by (simp add: Cons.IH p map_of_dict_set map_add_def split: option.splits)
qed

lemma map_of_dict_update:
  "map_of (dict_update d other) k' =
     (case map_of (rev other) k' of Some v \<Rightarrow> Some v | None \<Rightarrow> map_of d k')"
  by (simp add: dict_update_def fold_dict_set_map_of)

lemma set_dict_update: "set (dict_update d other) \<subseteq> set d \<union> set other"
  unfolding dict_update_def
proof (induction other arbitrary: d)
  case Nil
  then show ?case by simp
next
  case (Cons p other)
  obtain k v where p: "p = (k, v)" by (cases p)
  have "set (fold (\<lambda>(k, v). dict_set k v) other (dict_set k v d))
          \<subseteq> set (dict_set k v d) \<union> set other"
    by (rule Cons.IH)
  with set_dict_set [of k v d] show ?case by (auto simp: p)
qed


section \<open>The no-location test and the archive data\<close>

lemma map_of_rev_distinct: "distinct (map fst xs) \<Longrightarrow> map_of (rev xs) k = map_of xs k"
proof (induction xs)
  case Nil
  then show ?case by simp
next
  case (Cons p xs)
  obtain a b where p: "p = (a, b)" by (cases p)
  from Cons.prems have "a \<notin> fst ` set xs" by (simp add: p)
  then have "map_of xs a = None" by (simp add: map_of_eq_None_iff)
  with Cons show ?case by (auto simp: p map_add_def split: option.splits)
qed

lemma noloc_False_iff: "noloc r = Inr False \<longleftrightarrow> has_location (Rec r)"
  by (auto simp: noloc_def has_location_def split: option.splits)

lemma noloc_True_no_location: "noloc r = Inr True \<Longrightarrow> \<not> has_location (Rec r)"
  by (auto simp: noloc_def has_location_def split: option.splits if_splits)

lemma noloc_Inl_iff:
  "noloc r = Inl e \<longleftrightarrow>
     (map_of r ''lat'' = None \<and> e = KeyError ''lat'') \<or>
     (\<exists>v. map_of r ''lat'' = Some v \<and> v \<noteq> PNone \<and> map_of r ''lng'' = None \<and> e = KeyError ''lng'')"
  by (auto simp: noloc_def split: option.splits)

lemma archive_data_Inr:
  "archive_data tms = Inr d \<Longrightarrow>
     d = map (\<lambda>(k, it). (k, lat_lng_only it)) (filter (\<lambda>(k, it). has_location it) tms)"
proof (induction tms arbitrary: d rule: archive_data.induct)
  case 1
  then show ?case by simp
next
  case (2 k0 v rest)
  then show ?case by simp
next
  case (3 k0 v0 rest)
  from "3.prems" obtain nl d0 where nl: "noloc v0 = Inr nl" and d0: "archive_data rest = Inr d0"
    and d: "d = (if nl then d0 else (k0, filter (\<lambda>(k1, v1). k1 \<in> set [''lat'', ''lng'']) v0) # d0)"
    by (auto split: sum.splits)
  have IH: "d0 = map (\<lambda>(k, it). (k, lat_lng_only it)) (filter (\<lambda>(k, it). has_location it) rest)"
    using "3.IH" nl d0 by simp
  show ?case
  proof (cases nl)
    case True
    with nl have "\<not> has_location (Rec v0)" by (simp add: noloc_True_no_location)
    with True d IH show ?thesis by simp
  next
    case False
    with nl have "has_location (Rec v0)" by (simp add: noloc_False_iff)
    moreover have "filter (\<lambda>(k1, v1). k1 \<in> set [''lat'', ''lng'']) v0 = lat_lng_only (Rec v0)"
      by (simp add: lat_lng_only_def)
    ultimately show ?thesis using False d IH by simp
  qed
qed

lemma map_of_filter_map:
  "distinct (map fst xs) \<Longrightarrow>
   map_of (map (\<lambda>(k, v). (k, f v)) (filter (\<lambda>(k, v). P v) xs)) k =
     (case map_of xs k of None \<Rightarrow> None | Some v \<Rightarrow> if P v then Some (f v) else None)"
proof (induction xs)
  case Nil
  then show ?case by simp
next
  case (Cons p xs)
  obtain a b where p: "p = (a, b)" by (cases p)
  from Cons.prems have "map_of xs a = None" by (simp add: p map_of_eq_None_iff)
  with Cons show ?case by (auto simp: p split: option.splits)
qed

lemma keys_lat_lng_only:
  assumes "has_location it"
  shows "fst ` set (lat_lng_only it) = {''lat'', ''lng''}"
proof (cases it)
  case (Rec r)
  from assms Rec obtain la lo where la: "map_of r ''lat'' = Some la" and lo: "map_of r ''lng'' = Some lo"
    by (auto simp: has_location_def split: option.splits)
  from la have a: "(''lat'', la) \<in> set r" by (rule map_of_SomeD)
  from lo have b: "(''lng'', lo) \<in> set r" by (rule map_of_SomeD)
  have sub: "fst ` set (lat_lng_only it) \<subseteq> {''lat'', ''lng''}"
    unfolding Rec lat_lng_only_def by auto
  from a have "(''lat'', la) \<in> set (lat_lng_only it)"
    unfolding Rec lat_lng_only_def by simp
  then have 1: "''lat'' \<in> fst ` set (lat_lng_only it)" by (rule image_eqI [rotated]) simp
  from b have "(''lng'', lo) \<in> set (lat_lng_only it)"
    unfolding Rec lat_lng_only_def by simp
  then have 2: "''lng'' \<in> fst ` set (lat_lng_only it)" by (rule image_eqI [rotated]) simp
  from sub 1 2 show ?thesis by blast
next
  case (Scalar v)
  with assms show ?thesis by (simp add: has_location_def)
qed

lemma map_of_lat_lng_only:
  "map_of (lat_lng_only (Rec r)) f = (if f = ''lat'' \<or> f = ''lng'' then map_of r f else None)"
  unfolding lat_lng_only_def by (induction r) auto

lemma archive_data_no_return:
  "(k, Rec r) \<in> set objs \<Longrightarrow> noloc r = Inl e \<Longrightarrow> archive_data objs \<noteq> Inr d"
proof (induction objs arbitrary: d)
  case Nil
  then show ?case by simp
next
  case (Cons p objs)
  obtain k0 it where p: "p = (k0, it)" by (cases p)
  show ?case
  proof (cases it)
    case (Scalar v)
    then show ?thesis by (simp add: p)
  next
    case (Rec v0)
    show ?thesis
    proof (cases "(k, Rec r) = p")
      case True
      with p Rec Cons.prems show ?thesis by simp
    next
      case False
      with Cons.prems have "(k, Rec r) \<in> set objs" by simp
      then have "\<And>d. archive_data objs \<noteq> Inr d" using Cons.IH Cons.prems(2) by blast
      then show ?thesis by (simp add: p Rec split: sum.splits)
    qed
  qed
qed

lemma dedup_from_no_return:
  "(k, Rec r) \<in> set objs \<Longrightarrow> noloc r = Inl e \<Longrightarrow> dedup_from rt ulocs n objs \<noteq> Inr res"
proof (induction objs arbitrary: ulocs n res)
  case Nil
  then show ?case by simp
next
  case (Cons p objs)
  obtain k0 it where p: "p = (k0, it)" by (cases p)
  show ?case
  proof (cases it)
    case (Scalar v)
    then show ?thesis by (simp add: p)
  next
    case (Rec v0)
    show ?thesis
    proof (cases "(k, Rec r) = p")
      case True
      with p Rec Cons.prems show ?thesis by simp
    next
      case False
      with Cons.prems have "(k, Rec r) \<in> set objs" by simp
      then have IH: "\<And>ulocs n res. dedup_from rt ulocs n objs \<noteq> Inr res"
        using Cons.IH Cons.prems(2) by blast
      show ?thesis
        by (simp add: p Rec IH split: sum.splits bool.splits prod.splits)
    qed
  qed
qed

section \<open>Saving the archives\<close>

lemma archive_data_contents:
  assumes dist: "distinct (map fst batch)" and ad: "archive_data batch = Inr d"
  shows "(\<forall>k. k \<in> fst ` set d \<longleftrightarrow> (\<exists>it. map_of batch k = Some it \<and> has_location it))"
    and "(\<forall>k loc r. map_of d k = Some loc \<longrightarrow> map_of batch k = Some (Rec r) \<longrightarrow>
           fst ` set loc = {''lat'', ''lng''} \<and> map_of loc ''lat'' = map_of r ''lat''
           \<and> map_of loc ''lng'' = map_of r ''lng'')"
proof -
  have d: "d = map (\<lambda>(k, it). (k, lat_lng_only it)) (filter (\<lambda>(k, it). has_location it) batch)"
    using ad by (rule archive_data_Inr)
  have m: "\<And>k. map_of d k =
      (case map_of batch k of None \<Rightarrow> None | Some it \<Rightarrow> if has_location it then Some (lat_lng_only it) else None)"
    unfolding d using dist by (rule map_of_filter_map)
  show "\<forall>k. k \<in> fst ` set d \<longleftrightarrow> (\<exists>it. map_of batch k = Some it \<and> has_location it)"
  proof
    fix k
    have "k \<in> fst ` set d \<longleftrightarrow> map_of d k \<noteq> None" by (simp add: map_of_eq_None_iff)
    also have "\<dots> \<longleftrightarrow> (\<exists>it. map_of batch k = Some it \<and> has_location it)"
      by (simp add: m split: option.splits)
    finally show "k \<in> fst ` set d \<longleftrightarrow> (\<exists>it. map_of batch k = Some it \<and> has_location it)" .
  qed
  show "\<forall>k loc r. map_of d k = Some loc \<longrightarrow> map_of batch k = Some (Rec r) \<longrightarrow>
           fst ` set loc = {''lat'', ''lng''} \<and> map_of loc ''lat'' = map_of r ''lat''
           \<and> map_of loc ''lng'' = map_of r ''lng''"
  proof (intro allI impI)
    fix k loc r
    assume a: "map_of d k = Some loc" and b: "map_of batch k = Some (Rec r)"
    from a b m [of k] have hl: "has_location (Rec r)" and loc: "loc = lat_lng_only (Rec r)"
      by (auto split: if_splits)
    from hl have "fst ` set loc = {''lat'', ''lng''}" unfolding loc by (rule keys_lat_lng_only)
    moreover have "map_of loc ''lat'' = map_of r ''lat''" "map_of loc ''lng'' = map_of r ''lng''"
      unfolding loc by (simp_all add: map_of_lat_lng_only)
    ultimately show "fst ` set loc = {''lat'', ''lng''} \<and> map_of loc ''lat'' = map_of r ''lat''
           \<and> map_of loc ''lng'' = map_of r ''lng''" by simp
  qed
qed

lemma write_json_Inr:
  "write_json name d w = Inr w' \<Longrightarrow> map_of (archive_dir w') name = Some (JsonFile d)"
  by (auto simp: write_json_def map_of_dict_set split: if_splits)

text \<open>
  Claim C7. Both save methods write, under the name of the archive file, exactly the
  entities of the batch that have both \<^verbatim>\<open>lat\<close> and \<^verbatim>\<open>lng\<close> not null, and of
  each of them exactly the fields \<^verbatim>\<open>lat\<close> and \<^verbatim>\<open>lng\<close> with the values of the
  record. An entity without a location is not written.
\<close>

theorem saved_archives_hold_located_entities:
  assumes "distinct (map fst batch)"
  shows "(save_team_archive batch year w = Inr w1 \<longrightarrow>
            (\<exists>d. map_of (archive_dir w1) (team_file year) = Some (JsonFile d)
               \<and> (\<forall>k. k \<in> fst ` set d \<longleftrightarrow> (\<exists>it. map_of batch k = Some it \<and> has_location it))
               \<and> (\<forall>k loc r. map_of d k = Some loc \<longrightarrow> map_of batch k = Some (Rec r) \<longrightarrow>
                     fst ` set loc = {''lat'', ''lng''} \<and> map_of loc ''lat'' = map_of r ''lat''
                     \<and> map_of loc ''lng'' = map_of r ''lng'')))
       \<and> (save_event_archive batch w = Inr w2 \<longrightarrow>
            (\<exists>d. map_of (archive_dir w2) ''all_event_locations.json'' = Some (JsonFile d)
               \<and> (\<forall>k. k \<in> fst ` set d \<longleftrightarrow> (\<exists>it. map_of batch k = Some it \<and> has_location it))
               \<and> (\<forall>k loc r. map_of d k = Some loc \<longrightarrow> map_of batch k = Some (Rec r) \<longrightarrow>
                     fst ` set loc = {''lat'', ''lng''} \<and> map_of loc ''lat'' = map_of r ''lat''
                     \<and> map_of loc ''lng'' = map_of r ''lng'')))"
proof (intro conjI impI)
  assume "save_team_archive batch year w = Inr w1"
  then obtain d where ad: "archive_data batch = Inr d" and wj: "write_json (team_file year) d w = Inr w1"
    by (auto simp: save_team_archive_def split: sum.splits)
  from wj have "map_of (archive_dir w1) (team_file year) = Some (JsonFile d)" by (rule write_json_Inr)
  with archive_data_contents [OF assms ad]
  show "\<exists>d. map_of (archive_dir w1) (team_file year) = Some (JsonFile d)
               \<and> (\<forall>k. k \<in> fst ` set d \<longleftrightarrow> (\<exists>it. map_of batch k = Some it \<and> has_location it))
               \<and> (\<forall>k loc r. map_of d k = Some loc \<longrightarrow> map_of batch k = Some (Rec r) \<longrightarrow>
                     fst ` set loc = {''lat'', ''lng''} \<and> map_of loc ''lat'' = map_of r ''lat''
                     \<and> map_of loc ''lng'' = map_of r ''lng'')" by blast
next
  assume "save_event_archive batch w = Inr w2"
  then obtain d where ad: "archive_data batch = Inr d"
    and wj: "write_json ''all_event_locations.json'' d w = Inr w2"
    by (auto simp: save_event_archive_def split: sum.splits)
  from wj have "map_of (archive_dir w2) ''all_event_locations.json'' = Some (JsonFile d)"
    by (rule write_json_Inr)
  with archive_data_contents [OF assms ad]
  show "\<exists>d. map_of (archive_dir w2) ''all_event_locations.json'' = Some (JsonFile d)
               \<and> (\<forall>k. k \<in> fst ` set d \<longleftrightarrow> (\<exists>it. map_of batch k = Some it \<and> has_location it))
               \<and> (\<forall>k loc r. map_of d k = Some loc \<longrightarrow> map_of batch k = Some (Rec r) \<longrightarrow>
                     fst ` set loc = {''lat'', ''lng''} \<and> map_of loc ''lat'' = map_of r ''lat''
                     \<and> map_of loc ''lng'' = map_of r ''lng'')" by blast
qed

lemma team_file_2024: "team_file 2024 = ''all_team_locations_2024.json''"
  by (simp add: team_file_def str_int_def str_nat.simps digit_char_def)

lemma save_two_teams:
  "save_team_archive two_teams 2024 empty_world =
     Inr \<lparr>archive_dir = [(''all_team_locations_2024.json'',
              JsonFile [(''frc1'', [(''lat'', PFloat 10), (''lng'', PFloat 20)])])],
          calls = [], draws = 0\<rparr>"
  by (simp add: save_team_archive_def two_teams_def noloc_def write_json_def empty_world_def team_file_2024)

lemma save_two_events:
  "save_event_archive two_teams empty_world =
     Inr \<lparr>archive_dir = [(''all_event_locations.json'',
              JsonFile [(''frc1'', [(''lat'', PFloat 10), (''lng'', PFloat 20)])])],
          calls = [], draws = 0\<rparr>"
  by (simp add: save_event_archive_def two_teams_def noloc_def write_json_def empty_world_def)

theorem saved_archives_witness:
  "distinct (map fst two_teams)
   \<and> save_team_archive two_teams 2024 empty_world =
       Inr \<lparr>archive_dir = [(''all_team_locations_2024.json'',
                JsonFile [(''frc1'', [(''lat'', PFloat 10), (''lng'', PFloat 20)])])],
            calls = [], draws = 0\<rparr>
   \<and> save_event_archive two_teams empty_world =
       Inr \<lparr>archive_dir = [(''all_event_locations.json'',
                JsonFile [(''frc1'', [(''lat'', PFloat 10), (''lng'', PFloat 20)])])],
            calls = [], draws = 0\<rparr>
   \<and> (\<exists>d. map_of (archive_dir 
       \<lparr>archive_dir = [(''all_team_locations_2024.json'',
                JsonFile [(''frc1'', [(''lat'', PFloat 10), (''lng'', PFloat 20)])])],
            calls = [], draws = 0\<rparr>) (team_file 2024) = Some (JsonFile d)
               \<and> (\<forall>k. k \<in> fst ` set d \<longleftrightarrow> (\<exists>it. map_of two_teams k = Some it \<and> has_location it))
               \<and> (\<forall>k loc r. map_of d k = Some loc \<longrightarrow> map_of two_teams k = Some (Rec r) \<longrightarrow>
                     fst ` set loc = {''lat'', ''lng''} \<and> map_of loc ''lat'' = map_of r ''lat''
                     \<and> map_of loc ''lng'' = map_of r ''lng''))"
proof -
  have h: "distinct (map fst two_teams)" by (simp add: two_teams_def)
  note t = saved_archives_hold_located_entities [OF h, of 2024 empty_world _ "empty_world"]
  from t [THEN conjunct1] save_two_teams
  have c: "(\<exists>d. map_of (archive_dir 
       \<lparr>archive_dir = [(''all_team_locations_2024.json'',
                JsonFile [(''frc1'', [(''lat'', PFloat 10), (''lng'', PFloat 20)])])],
            calls = [], draws = 0\<rparr>) (team_file 2024) = Some (JsonFile d)
               \<and> (\<forall>k. k \<in> fst ` set d \<longleftrightarrow> (\<exists>it. map_of two_teams k = Some it \<and> has_location it))
               \<and> (\<forall>k loc r. map_of d k = Some loc \<longrightarrow> map_of two_teams k = Some (Rec r) \<longrightarrow>
                     fst ` set loc = {''lat'', ''lng''} \<and> map_of loc ''lat'' = map_of r ''lat''
                     \<and> map_of loc ''lng'' = map_of r ''lng''))"
    by (rule mp)
  show ?thesis
    by (rule conjI [OF h conjI [OF save_two_teams conjI [OF save_two_events c]]])
qed

section \<open>Loading the team archive\<close>

lemma team_years_keys:
  "fst ` set (fold (\<lambda>file years. case match_team_file file of
                            None \<Rightarrow> years
                          | Some y \<Rightarrow> dict_set y file years) fs acc)
     = fst ` set acc \<union> {y. \<exists>f\<in>set fs. match_team_file f = Some y}"
proof (induction fs arbitrary: acc)
  case Nil
  then show ?case by simp
next
  case (Cons f fs)
  show ?case
  proof (cases "match_team_file f")
    case None
    then show ?thesis by (auto simp: Cons.IH)
  next
    case (Some y)
    then show ?thesis by (auto simp: Cons.IH keys_dict_set)
  qed
qed

lemma team_years_lookup:
  "map_of (fold (\<lambda>file years. case match_team_file file of
                            None \<Rightarrow> years
                          | Some y \<Rightarrow> dict_set y file years) fs acc) y = Some g
   \<Longrightarrow> (g \<in> set fs \<and> match_team_file g = Some y) \<or> map_of acc y = Some g"
proof (induction fs arbitrary: acc)
  case Nil
  then show ?case by simp
next
  case (Cons f fs)
  show ?case
  proof (cases "match_team_file f")
    case None
    with Cons.prems have "map_of (fold (\<lambda>file years. case match_team_file file of
                            None \<Rightarrow> years
                          | Some y \<Rightarrow> dict_set y file years) fs acc) y = Some g" by simp
    from Cons.IH [OF this] show ?thesis by auto
  next
    case (Some y')
    with Cons.prems have "map_of (fold (\<lambda>file years. case match_team_file file of
                            None \<Rightarrow> years
                          | Some y \<Rightarrow> dict_set y file years) fs (dict_set y' f acc)) y = Some g" by simp
    from Cons.IH [OF this] Some show ?thesis
      by (auto simp: map_of_dict_set split: if_splits)
  qed
qed

text \<open>
  The regular expression of the loader accepts every name of the specification, with
  the year the name carries, and the name that \<^verbatim>\<open>__save_team_archive\<close> writes for
  a year of four digits is such a name.
\<close>

lemma digit_char_code: "k < 10 \<Longrightarrow> (of_char (digit_char k) :: nat) = 48 + k"
proof -
  assume "k < 10"
  then have "k = 0 \<or> k = 1 \<or> k = 2 \<or> k = 3 \<or> k = 4 \<or> k = 5 \<or> k = 6 \<or> k = 7 \<or> k = 8 \<or> k = 9" by arith
  then show ?thesis by (elim disjE) (simp_all add: digit_char_def)
qed

lemma of_char_digit_char: "(of_char (digit_char n) :: nat) = 48 + n mod 10"
proof -
  have "digit_char n = digit_char (n mod 10)" by (simp add: digit_char_def)
  then show ?thesis using digit_char_code [of "n mod 10"] by simp
qed

lemma is_digit_digit_char: "is_digit (digit_char n)"
  by (simp add: is_digit_def of_char_digit_char)

lemma decimal_4:
  assumes "y < 10000"
  shows "10 * (10 * (10 * (y div 1000 mod 10) + y div 100 mod 10) + y div 10 mod 10) + y mod 10 = (y::nat)"
proof -
  define q1 where "q1 = y div 10"
  define q2 where "q2 = q1 div 10"
  define q3 where "q3 = q2 div 10"
  have "y div 100 = y div (10 * 10)" by simp
  then have e2: "y div 100 = q2" unfolding q2_def q1_def by (simp only: div_mult2_eq)
  have "y div 1000 = y div (10 * 10 * 10)" by simp
  then have e3: "y div 1000 = q3" unfolding q3_def q2_def q1_def by (simp only: div_mult2_eq)
  from assms have "y < 10 * 1000" by simp
  then have "y div 1000 < 10" by (rule less_mult_imp_div_less)
  then have 4: "q3 mod 10 = q3" by (simp add: e3)
  have 3: "10 * q3 + q2 mod 10 = q2" unfolding q3_def by (rule mult_div_mod_eq)
  have 2: "10 * q2 + q1 mod 10 = q1" unfolding q2_def by (rule mult_div_mod_eq)
  have 1: "10 * q1 + y mod 10 = y" unfolding q1_def by (rule mult_div_mod_eq)
  have "10 * (10 * (10 * (q3 mod 10) + q2 mod 10) + q1 mod 10) + y mod 10 = y"
    by (simp only: 4 3 2 1)
  then show ?thesis by (simp only: e2 e3 q1_def [symmetric])
qed

lemma int_of_digits_year:
  assumes "y < 10000"
  shows "int_of_digits [digit_char (y div 1000), digit_char (y div 100), digit_char (y div 10), digit_char y] = y"
proof -
  have "int_of_digits [digit_char (y div 1000), digit_char (y div 100), digit_char (y div 10), digit_char y]
      = 10 * (10 * (10 * (y div 1000 mod 10) + y div 100 mod 10) + y div 10 mod 10) + y mod 10"
    by (simp add: int_of_digits_def of_char_digit_char)
  also have "\<dots> = y" by (rule decimal_4 [OF assms])
  finally show ?thesis .
qed

lemma match_year_stamped_name: "y < 10000 \<Longrightarrow> match_team_file (year_stamped_name y) = Some y"
  by (simp add: match_team_file_def year_stamped_name_def is_digit_digit_char int_of_digits_year)

lemma year_stamped_2022: "year_stamped_name 2022 = ''all_team_locations_2022.json''"
  by (simp add: year_stamped_name_def digit_char_def)

lemma str_nat_4: 
  assumes "1000 \<le> y" "y < 10000"
  shows "str_nat y = [digit_char (y div 1000), digit_char (y div 100), digit_char (y div 10), digit_char y]"
proof -
  have "y div 100 = y div (10 * 10)" by simp
  then have e2: "y div 100 = y div 10 div 10" by (simp only: div_mult2_eq)
  have "y div 1000 = y div (10 * 10 * 10)" by simp
  then have e3: "y div 1000 = y div 10 div 10 div 10" by (simp only: div_mult2_eq)
  from assms have "y < 10 * 1000" by simp
  then have lt: "y div 1000 < 10" by (rule less_mult_imp_div_less)
  from assms have g1: "\<not> y < 10" by simp
  from assms have "10 * 10 \<le> y" by simp
  then have "10 \<le> y div 10" by (simp add: less_eq_div_iff_mult_less_eq)
  then have g2: "\<not> y div 10 < 10" by simp
  from assms have "10 * 100 \<le> y" by simp
  then have "10 \<le> y div 100" by (simp add: less_eq_div_iff_mult_less_eq)
  then have g3: "\<not> y div 100 < 10" by simp
  have a: "str_nat y = str_nat (y div 10) @ [digit_char y]"
    using g1 by (simp add: str_nat.simps [of y])
  have b: "str_nat (y div 10) = str_nat (y div 100) @ [digit_char (y div 10)]"
    using g2 by (simp add: str_nat.simps [of "y div 10"] e2)
  have c: "str_nat (y div 100) = str_nat (y div 1000) @ [digit_char (y div 100)]"
    using g3 unfolding e2 e3 by (simp add: str_nat.simps [of "y div 10 div 10"])
  have d: "str_nat (y div 1000) = [digit_char (y div 1000)]"
    using lt by (simp add: str_nat.simps [of "y div 1000"])
  show ?thesis by (simp only: a b c d append.simps append_assoc)
qed

lemma team_file_year_stamped:
  "1000 \<le> y \<Longrightarrow> y < 10000 \<Longrightarrow> team_file (int y) = year_stamped_name y"
  by (simp add: team_file_def str_int_def str_nat_4 year_stamped_name_def)


text \<open>
  When every regular file that the regular expression accepts is named as the
  specification says, the loader does what is expected of it: it returns the empty
  archive when no file carries such a name, and loads the file of the greatest year
  otherwise.
\<close>

lemma team_years_year_stamped:
  assumes named: "\<forall>f\<in>set (regular_files dir). match_team_file f \<noteq> None
                    \<longrightarrow> (\<exists>y<10000. f = year_stamped_name y)"
  shows "fst ` set (team_years dir) = {y. y < 10000 \<and> year_stamped_name y \<in> set (regular_files dir)}"
proof -
  have keys: "fst ` set (team_years dir) = {y. \<exists>f\<in>set (regular_files dir). match_team_file f = Some y}"
    unfolding team_years_def by (simp add: team_years_keys)
  have "(\<exists>f\<in>set (regular_files dir). match_team_file f = Some y)
        \<longleftrightarrow> (y < 10000 \<and> year_stamped_name y \<in> set (regular_files dir))" for y
  proof
    assume "\<exists>f\<in>set (regular_files dir). match_team_file f = Some y"
    then obtain f where f: "f \<in> set (regular_files dir)" and m: "match_team_file f = Some y" by blast
    from named f m obtain y' where y': "y' < 10000" and n: "f = year_stamped_name y'" by auto
    from match_year_stamped_name [OF y'] m n have "y' = y" by simp
    with y' n f show "y < 10000 \<and> year_stamped_name y \<in> set (regular_files dir)" by simp
  next
    assume "y < 10000 \<and> year_stamped_name y \<in> set (regular_files dir)"
    then show "\<exists>f\<in>set (regular_files dir). match_team_file f = Some y"
      using match_year_stamped_name [of y] by blast
  qed
  with keys show ?thesis by simp
qed

lemma read_team_archive_year_stamped:
  assumes named: "\<forall>f\<in>set (regular_files dir). match_team_file f \<noteq> None
                    \<longrightarrow> (\<exists>y<10000. f = year_stamped_name y)"
  shows "((\<forall>y<10000. year_stamped_name y \<notin> set (regular_files dir))
            \<longrightarrow> read_team_archive dir = Inr [])
     \<and> (\<forall>m<10000. year_stamped_name m \<in> set (regular_files dir)
            \<and> (\<forall>y<10000. year_stamped_name y \<in> set (regular_files dir) \<longrightarrow> y \<le> m)
          \<longrightarrow> read_team_archive dir = json_load dir (year_stamped_name m))"
proof -
  note keys = team_years_year_stamped [OF named]
  have a: "(\<forall>y<10000. year_stamped_name y \<notin> set (regular_files dir))
            \<longrightarrow> read_team_archive dir = Inr []"
  proof
    assume "\<forall>y<10000. year_stamped_name y \<notin> set (regular_files dir)"
    with keys have "fst ` set (team_years dir) = {}" by simp
    then have "team_years dir = []" by simp
    then show "read_team_archive dir = Inr []" by (simp add: read_team_archive_def)
  qed
  have b: "read_team_archive dir = json_load dir (year_stamped_name m)"
    if m: "m < 10000" and inm: "year_stamped_name m \<in> set (regular_files dir)"
      and mx: "\<forall>y<10000. year_stamped_name y \<in> set (regular_files dir) \<longrightarrow> y \<le> m" for m
  proof -
    from keys m inm have m_in: "m \<in> set (map fst (team_years dir))" by simp
    have fin: "finite (set (map fst (team_years dir)))" by simp
    have le: "y \<le> m" if "y \<in> set (map fst (team_years dir))" for y
      using that keys mx by simp
    have mm: "Max (set (map fst (team_years dir))) = m"
      by (rule Max_eqI [OF fin le m_in])
    from m_in have "map_of (team_years dir) m \<noteq> None" by (simp add: map_of_eq_None_iff)
    then obtain g where g: "map_of (team_years dir) m = Some g" by auto
    from team_years_lookup [OF g [unfolded team_years_def]]
    have g_in: "g \<in> set (regular_files dir)" and g_m: "match_team_file g = Some m" by auto
    from named g_in g_m obtain y' where y': "y' < 10000" and n: "g = year_stamped_name y'" by auto
    from match_year_stamped_name [OF y'] g_m n have "y' = m" by simp
    with n have gn: "g = year_stamped_name m" by simp
    from m_in have "length (team_years dir) > 0" by auto
    with g gn mm show ?thesis
      by (simp add: read_team_archive_def Let_def lookup_def)
  qed
  from a b show ?thesis by blast
qed

lemma read_two_years:
  "read_team_archive two_years_dir = Inr [(''frc1'', [(''lat'', PFloat 3), (''lng'', PFloat 4)])]"
  by (simp add: read_team_archive_def two_years_dir_def team_years_def regular_files_def
      match_team_file_def is_digit_def int_of_digits_def lookup_def json_load_def)

text \<open>
  Claim C8 fails on the code. The directory holds the team archive of 2022 and a file
  \<^verbatim>\<open>all_team_locations_2023.json.bak\<close>, which is not named after the pattern
  \<^verbatim>\<open>all_team_locations_<YYYY>.json\<close>. The only file matching the pattern is the one of
  2022, and the loader returns the content of the other file: the regular expression is
  matched at the start of the name only, and its dot stands for any character.
\<close>

theorem load_team_archive_takes_stray_file:
  "regular_files stray_backup_dir
     = [''all_team_locations_2022.json'', ''all_team_locations_2023.json.bak'']
   \<and> year_stamped_name 2022 = ''all_team_locations_2022.json''
   \<and> year_stamped_name 2023 = ''all_team_locations_2023.json''
   \<and> json_load stray_backup_dir (year_stamped_name 2022)
       = Inr [(''frc1'', [(''lat'', PFloat 3), (''lng'', PFloat 4)])]
   \<and> read_team_archive stray_backup_dir
       = Inr [(''frc1'', [(''lat'', PFloat 5), (''lng'', PFloat 6)])]"
proof -
  have a: "regular_files stray_backup_dir
     = [''all_team_locations_2022.json'', ''all_team_locations_2023.json.bak'']"
    by (simp add: regular_files_def stray_backup_dir_def)
  have b: "year_stamped_name 2022 = ''all_team_locations_2022.json''"
    by (simp add: year_stamped_name_def digit_char_def)
  have c: "year_stamped_name 2023 = ''all_team_locations_2023.json''"
    by (simp add: year_stamped_name_def digit_char_def)
  have d: "json_load stray_backup_dir (year_stamped_name 2022)
       = Inr [(''frc1'', [(''lat'', PFloat 3), (''lng'', PFloat 4)])]"
    by (simp add: b stray_backup_dir_def json_load_def)
  have e: "read_team_archive stray_backup_dir
       = Inr [(''frc1'', [(''lat'', PFloat 5), (''lng'', PFloat 6)])]"
    by (simp add: read_team_archive_def stray_backup_dir_def team_years_def regular_files_def
      match_team_file_def is_digit_def int_of_digits_def lookup_def json_load_def)
  show ?thesis by (rule conjI [OF a conjI [OF b conjI [OF c conjI [OF d e]]]])
qed


section \<open>Collision deduplication\<close>

lemma py_eq_sym: "py_eq a b \<Longrightarrow> py_eq b a"
  by (auto simp: py_eq_def split: option.splits)

lemma py_eq_trans: "py_eq a b \<Longrightarrow> py_eq b c \<Longrightarrow> py_eq a c"
  by (auto simp: py_eq_def split: option.splits)

lemma loc_eq_sym: "loc_eq a b \<Longrightarrow> loc_eq b a"
  by (simp add: loc_eq_def py_eq_sym)

lemma loc_eq_trans: "loc_eq a b \<Longrightarrow> loc_eq b c \<Longrightarrow> loc_eq a c"
  unfolding loc_eq_def using py_eq_trans by blast

lemma loc_in_append: "loc_in l (U @ [(l', k)]) \<longleftrightarrow> loc_in l U \<or> loc_eq l l'"
  by (auto simp: loc_in_def list_ex_iff)

lemma loc_in_trans: "loc_eq l l' \<Longrightarrow> loc_in l' U \<Longrightarrow> loc_in l U"
  unfolding loc_in_def list_ex_iff using loc_eq_trans by blast

lemma noloc_True_loc_of: "noloc obj = Inr True \<Longrightarrow> loc_of (Rec obj) = None"
  by (auto simp: noloc_def loc_of_def split: option.splits if_splits)

lemma noloc_False_loc_of:
  "noloc obj = Inr False \<Longrightarrow> \<exists>loc. location_tuple obj = Inr loc \<and> loc_of (Rec obj) = Some loc"
  by (auto simp: noloc_def loc_of_def location_tuple_def split: option.splits if_splits)

lemma dup_in_Nil: "dup_in U [] it \<longleftrightarrow> (\<exists>l. loc_of it = Some l \<and> loc_in l U)"
  by (simp add: dup_in_def split: option.splits)

lemma dup_in_skip:
  "loc_of it0 = None \<Longrightarrow> dup_in U ((k, it0) # earlier) it = dup_in U earlier it"
  by (simp add: dup_in_def split: option.splits)

lemma dup_in_taken:
  "loc_of it0 = Some loc \<Longrightarrow> loc_in loc U \<Longrightarrow> dup_in U ((k, it0) # earlier) it = dup_in U earlier it"
  by (auto simp: dup_in_def split: option.splits dest: loc_in_trans)

lemma dup_in_claim:
  "loc_of it0 = Some loc \<Longrightarrow> dup_in (U @ [(loc, k)]) earlier it = dup_in U ((k, it0) # earlier) it"
  by (auto simp: dup_in_def loc_in_append split: option.splits)

lemma randomnize_location_Inr:
  assumes "randomnize_location rt obj n = Inr (obj', n1)"
  shows "n1 = n + 2"
    and "\<exists>la lo a b. map_of obj ''lat'' = Some la \<and> map_of obj ''lng'' = Some lo
           \<and> num_val la = Some a \<and> num_val lo = Some b
           \<and> obj' = dict_set ''lng'' (PFloat (gauss rt (n + 1) b (1 / 1000)))
                      (dict_set ''lat'' (PFloat (gauss rt n a (1 / 1000))) obj)"
  using assms
  by (auto simp: randomnize_location_def Let_def map_of_dict_set split: option.splits)

lemma dedup_from_spec:
  "dedup_from rt U n objs = Inr (objs', n') \<Longrightarrow>
   length objs' = length objs \<and>
   (\<forall>i<length objs. fst (objs' ! i) = fst (objs ! i) \<and>
      (if dup_in U (take i objs) (snd (objs ! i))
       then (\<exists>r r' m. snd (objs ! i) = Rec r \<and> snd (objs' ! i) = Rec r'
               \<and> randomnize_location rt r m = Inr (r', m + 2))
       else snd (objs' ! i) = snd (objs ! i)))"
proof (induction objs arbitrary: U n objs' n')
  case Nil
  then show ?case by simp
next
  case (Cons p objs)
  obtain key it where p: "p = (key, it)" by (cases p)
  show ?case
  proof (cases it)
    case (Scalar v)
    with Cons.prems p show ?thesis by simp
  next
    case (Rec obj)
    from Cons.prems p Rec obtain b where nl: "noloc obj = Inr b"
      by (auto split: sum.splits)
    let ?Q = "\<lambda>U0 pre x x'. fst x' = fst x \<and>
      (if dup_in U0 pre (snd x)
       then (\<exists>r r' m. snd x = Rec r \<and> snd x' = Rec r' \<and> randomnize_location rt r m = Inr (r', m + 2))
       else snd x' = snd x)"
    have step: "length objs' = length (p # objs) \<and> (\<forall>i<length (p # objs). ?Q U (take i (p # objs)) ((p # objs) ! i) (objs' ! i))"
      if o: "objs' = (key, Rec obj0) # rest'"
        and len: "length rest' = length objs"
        and hd: "?Q U [] p (key, Rec obj0)"
        and tl: "\<forall>j<length objs. ?Q U (p # take j objs) (objs ! j) (rest' ! j)"
      for obj0 rest'
    proof -
      have a: "length objs' = length (p # objs)" using o len by simp
      have b: "\<forall>i<length (p # objs). ?Q U (take i (p # objs)) ((p # objs) ! i) (objs' ! i)"
      proof (rule allI, rule impI)
        fix i assume i: "i < length (p # objs)"
        show "?Q U (take i (p # objs)) ((p # objs) ! i) (objs' ! i)"
        proof (cases i)
          case 0
          with hd o show ?thesis by (auto split: if_splits)
        next
          case (Suc j)
          with i have "j < length objs" by simp
          with tl have "?Q U (p # take j objs) (objs ! j) (rest' ! j)" by blast
          with Suc o show ?thesis by (auto split: if_splits)
        qed
      qed
      from a b show ?thesis by (rule conjI)
    qed
    show ?thesis
    proof (cases b)
      case True
      with nl have lo: "loc_of it = None" by (simp add: Rec noloc_True_loc_of)
      from Cons.prems p Rec nl True obtain rest' where
        r: "dedup_from rt U n objs = Inr (rest', n')" and o: "objs' = (key, Rec obj) # rest'"
        by (auto split: sum.splits)
      note IH = Cons.IH [OF r]
      have hd: "?Q U [] p (key, Rec obj)"
        using lo by (simp add: p Rec dup_in_Nil)
      have eq: "\<And>pre x. dup_in U (p # pre) x = dup_in U pre x"
        using lo by (simp add: p dup_in_skip)
      have tl: "\<forall>j<length objs. ?Q U (p # take j objs) (objs ! j) (rest' ! j)"
        unfolding eq using IH by (rule conjunct2)
      from step [OF o conjunct1 [OF IH] hd tl] show ?thesis .
    next
      case False
      with nl obtain loc where lt: "location_tuple obj = Inr loc" and lo: "loc_of it = Some loc"
        using noloc_False_loc_of [of obj] by (auto simp: Rec)
      show ?thesis
      proof (cases "loc_in loc U")
        case True
        from Cons.prems p Rec nl False lt True obtain obj' n1 rest' where
          rz: "randomnize_location rt obj n = Inr (obj', n1)"
          and r: "dedup_from rt U n1 objs = Inr (rest', n')" and o: "objs' = (key, Rec obj') # rest'"
          by (auto split: sum.splits)
        from randomnize_location_Inr(1) [OF rz] rz
        have rz2: "randomnize_location rt obj n = Inr (obj', n + 2)" by simp
        note IH = Cons.IH [OF r]
        have hd: "?Q U [] p (key, Rec obj')"
          using lo True rz2 by (auto simp: p Rec dup_in_Nil)
        have eq: "\<And>pre x. dup_in U (p # pre) x = dup_in U pre x"
          using lo True by (simp add: p dup_in_taken)
        have tl: "\<forall>j<length objs. ?Q U (p # take j objs) (objs ! j) (rest' ! j)"
          unfolding eq using IH by (rule conjunct2)
        from step [OF o conjunct1 [OF IH] hd tl] show ?thesis .
      next
        case nin: False
        from Cons.prems p Rec nl False lt nin obtain rest' where
          r: "dedup_from rt (U @ [(loc, key)]) n objs = Inr (rest', n')"
          and o: "objs' = (key, Rec obj) # rest'"
          by (auto split: sum.splits)
        note IH = Cons.IH [OF r]
        have hd: "?Q U [] p (key, Rec obj)"
          using lo nin by (simp add: p Rec dup_in_Nil)
        have eq: "\<And>pre x. dup_in U (p # pre) x = dup_in (U @ [(loc, key)]) pre x"
          using lo by (simp add: p dup_in_claim)
        have tl: "\<forall>j<length objs. ?Q U (p # take j objs) (objs ! j) (rest' ! j)"
          unfolding eq using IH by (rule conjunct2)
        from step [OF o conjunct1 [OF IH] hd tl] show ?thesis .
      qed
    qed
  qed
qed

text \<open>
  Claim C4. When \<^verbatim>\<open>__dedup_locations\<close> returns, the batch keeps its identifiers
  and their order. An entity is perturbed exactly when it has a location and an entity
  iterated before it has an equal pair: then its \<^verbatim>\<open>lat\<close> and \<^verbatim>\<open>lng\<close> are two
  successive draws of \<^verbatim>\<open>random.gauss\<close> with the old value as mean and deviation
  \<open>0.001\<close>, and its other fields are kept. Every other entity, so each first holder of a
  pair and each entity without a location, is left as it was. Which entities collide
  does not depend on the runtime or on the draws.
\<close>

theorem dedup_perturbs_exactly_the_collisions:
  assumes "dedup_locations rt objs w = Inr (objs', w')"
  shows "length objs' = length objs \<and>
    (\<forall>i<length objs. fst (objs' ! i) = fst (objs ! i) \<and>
       (collides (take i objs) (snd (objs ! i)) \<longrightarrow>
          (\<exists>r r' la lo a b m. snd (objs ! i) = Rec r \<and> snd (objs' ! i) = Rec r'
             \<and> map_of r ''lat'' = Some la \<and> map_of r ''lng'' = Some lo
             \<and> num_val la = Some a \<and> num_val lo = Some b
             \<and> map_of r' ''lat'' = Some (PFloat (gauss rt m a (1 / 1000)))
             \<and> map_of r' ''lng'' = Some (PFloat (gauss rt (m + 1) b (1 / 1000)))
             \<and> (\<forall>f. f \<noteq> ''lat'' \<and> f \<noteq> ''lng'' \<longrightarrow> map_of r' f = map_of r f)))
       \<and> (\<not> collides (take i objs) (snd (objs ! i)) \<longrightarrow> snd (objs' ! i) = snd (objs ! i)))"
proof -
  from assms obtain n' where d: "dedup_from rt [] (draws w) objs = Inr (objs', n')"
    by (auto simp: dedup_locations_def split: sum.splits)
  note s = dedup_from_spec [OF d]
  have len: "length objs' = length objs" using s by (rule conjunct1)
  have each: "fst (objs' ! i) = fst (objs ! i) \<and>
       (collides (take i objs) (snd (objs ! i)) \<longrightarrow>
          (\<exists>r r' la lo a b m. snd (objs ! i) = Rec r \<and> snd (objs' ! i) = Rec r'
             \<and> map_of r ''lat'' = Some la \<and> map_of r ''lng'' = Some lo
             \<and> num_val la = Some a \<and> num_val lo = Some b
             \<and> map_of r' ''lat'' = Some (PFloat (gauss rt m a (1 / 1000)))
             \<and> map_of r' ''lng'' = Some (PFloat (gauss rt (m + 1) b (1 / 1000)))
             \<and> (\<forall>f. f \<noteq> ''lat'' \<and> f \<noteq> ''lng'' \<longrightarrow> map_of r' f = map_of r f)))
       \<and> (\<not> collides (take i objs) (snd (objs ! i)) \<longrightarrow> snd (objs' ! i) = snd (objs ! i))"
    if i: "i < length objs" for i
  proof -
    from s i have k: "fst (objs' ! i) = fst (objs ! i)"
      and c: "if dup_in [] (take i objs) (snd (objs ! i))
       then (\<exists>r r' m. snd (objs ! i) = Rec r \<and> snd (objs' ! i) = Rec r'
               \<and> randomnize_location rt r m = Inr (r', m + 2))
       else snd (objs' ! i) = snd (objs ! i)"
      by blast+
    show ?thesis
    proof (cases "collides (take i objs) (snd (objs ! i))")
      case True
      with c obtain r r' m where r: "snd (objs ! i) = Rec r" and r': "snd (objs' ! i) = Rec r'"
        and rz: "randomnize_location rt r m = Inr (r', m + 2)"
        by (auto simp: collides_def)
      from randomnize_location_Inr(2) [OF rz] obtain la lo a b where
        la: "map_of r ''lat'' = Some la" and lo: "map_of r ''lng'' = Some lo"
        and a: "num_val la = Some a" and b: "num_val lo = Some b"
        and eq: "r' = dict_set ''lng'' (PFloat (gauss rt (m + 1) b (1 / 1000)))
                      (dict_set ''lat'' (PFloat (gauss rt m a (1 / 1000))) r)"
        by blast
      have 1: "map_of r' ''lat'' = Some (PFloat (gauss rt m a (1 / 1000)))"
        unfolding eq by (simp add: map_of_dict_set)
      have 2: "map_of r' ''lng'' = Some (PFloat (gauss rt (m + 1) b (1 / 1000)))"
        unfolding eq by (simp add: map_of_dict_set)
      have 3: "\<forall>f. f \<noteq> ''lat'' \<and> f \<noteq> ''lng'' \<longrightarrow> map_of r' f = map_of r f"
        unfolding eq by (simp add: map_of_dict_set)
      from r r' la lo a b 1 2 3 k True show ?thesis by blast
    next
      case False
      with c have "snd (objs' ! i) = snd (objs ! i)" by (simp add: collides_def)
      with k False show ?thesis by simp
    qed
  qed
  from len each show ?thesis by blast
qed


lemma dedup_three_teams:
  "dedup_locations shifting_runtime three_teams empty_world =
     Inr ([(''frc1'', Rec [(''key'', PStr ''frc1''), (''lat'', PFloat 10), (''lng'', PFloat 20)]),
           (''frc2'', Rec [(''key'', PStr ''frc2''), (''lat'', PFloat (10001 / 1000)),
                           (''lng'', PFloat (20001 / 1000))]),
           (''frc3'', Rec [(''key'', PStr ''frc3''), (''lat'', PNone), (''lng'', PNone)])],
          \<lparr>archive_dir = [], calls = [], draws = 2\<rparr>)"
  by (simp add: dedup_locations_def three_teams_def shifting_runtime_def empty_world_def
      noloc_def location_tuple_def loc_in_def loc_eq_def py_eq_def randomnize_location_def)

lemma collides_three_teams:
  "\<not> collides (take 0 three_teams) (snd (three_teams ! 0))
   \<and> collides (take 1 three_teams) (snd (three_teams ! 1))
   \<and> \<not> collides (take 2 three_teams) (snd (three_teams ! 2))"
  by (simp add: collides_def dup_in_def loc_of_def three_teams_def loc_in_def loc_eq_def py_eq_def)

theorem dedup_witness:
  "dedup_locations shifting_runtime three_teams empty_world =
     Inr ([(''frc1'', Rec [(''key'', PStr ''frc1''), (''lat'', PFloat 10), (''lng'', PFloat 20)]),
           (''frc2'', Rec [(''key'', PStr ''frc2''), (''lat'', PFloat (10001 / 1000)),
                           (''lng'', PFloat (20001 / 1000))]),
           (''frc3'', Rec [(''key'', PStr ''frc3''), (''lat'', PNone), (''lng'', PNone)])],
          \<lparr>archive_dir = [], calls = [], draws = 2\<rparr>)
   \<and> length [(''frc1'', Rec [(''key'', PStr ''frc1''), (''lat'', PFloat 10), (''lng'', PFloat 20)]),
           (''frc2'', Rec [(''key'', PStr ''frc2''), (''lat'', PFloat (10001 / 1000)),
                           (''lng'', PFloat (20001 / 1000))]),
           (''frc3'', Rec [(''key'', PStr ''frc3''), (''lat'', PNone), (''lng'', PNone)])]
       = length three_teams
   \<and> (\<not> collides (take 0 three_teams) (snd (three_teams ! 0))
   \<and> collides (take 1 three_teams) (snd (three_teams ! 1))
   \<and> \<not> collides (take 2 three_teams) (snd (three_teams ! 2)))"
proof -
  from dedup_perturbs_exactly_the_collisions [OF dedup_three_teams]
  have len: "length [(''frc1'', Rec [(''key'', PStr ''frc1''), (''lat'', PFloat 10), (''lng'', PFloat 20)]),
           (''frc2'', Rec [(''key'', PStr ''frc2''), (''lat'', PFloat (10001 / 1000)),
                           (''lng'', PFloat (20001 / 1000))]),
           (''frc3'', Rec [(''key'', PStr ''frc3''), (''lat'', PNone), (''lng'', PNone)])]
       = length three_teams"
    by (rule conjunct1)
  show ?thesis
    by (rule conjI [OF dedup_three_teams conjI [OF len collides_three_teams]])
qed

section \<open>Well-formed locations\<close>

lemma num_val_not_None: "num_val v \<noteq> None \<Longrightarrow> v \<noteq> PNone"
  by (cases v) auto

lemma proper_location_cases:
  assumes "proper_location r"
  obtains (unknown) "map_of r ''lat'' = Some PNone" "map_of r ''lng'' = Some PNone"
  | (known) la lo a b where "map_of r ''lat'' = Some la" "map_of r ''lng'' = Some lo"
      "num_val la = Some a" "num_val lo = Some b" "la \<noteq> PNone" "lo \<noteq> PNone"
proof -
  from assms obtain la lo where la: "map_of r ''lat'' = Some la" and lo: "map_of r ''lng'' = Some lo"
    and d: "(la = PNone \<and> lo = PNone) \<or> (num_val la \<noteq> None \<and> num_val lo \<noteq> None)"
    by (auto simp: proper_location_def split: option.splits)
  show thesis
  proof (cases "la = PNone \<and> lo = PNone")
    case True
    with la lo show thesis by (intro unknown) simp_all
  next
    case False
    with d have n: "num_val la \<noteq> None" "num_val lo \<noteq> None" by auto
    then obtain a b where "num_val la = Some a" "num_val lo = Some b" by auto
    moreover from n have "la \<noteq> PNone" "lo \<noteq> PNone" by (auto dest: num_val_not_None)
    ultimately show thesis using la lo by (intro known)
  qed
qed

lemma proper_update_location:
  assumes "is_location ov"
  shows "proper_location (dict_update r ov)"
proof -
  from assms have d: "distinct (map fst ov)" and p: "proper_location ov"
    by (simp_all add: is_location_def)
  have "map_of (dict_update r ov) f = map_of ov f" if "map_of ov f \<noteq> None" for f
    using that by (auto simp: map_of_dict_update map_of_rev_distinct [OF d] split: option.splits)
  moreover from p have "map_of ov ''lat'' \<noteq> None" "map_of ov ''lng'' \<noteq> None"
    by (auto simp: proper_location_def split: option.splits)
  ultimately show ?thesis using p by (simp add: proper_location_def)
qed

lemma proper_UNKNOWN: "proper_location (dict_update r UNKNOWN)"
  by (rule proper_update_location) (simp add: is_location_def proper_location_def UNKNOWN_def)

lemma proper_geocoded:
  "proper_location (dict_update r [(''lat'', PFloat la), (''lng'', PFloat lo)])"
  by (rule proper_update_location) (simp add: is_location_def proper_location_def)

lemma proper_dict_set_other:
  "f \<noteq> ''lat'' \<Longrightarrow> f \<noteq> ''lng'' \<Longrightarrow> proper_location (dict_set f v r) = proper_location r"
  by (simp add: proper_location_def map_of_dict_set)

lemma noloc_proper:
  assumes "proper_location r"
  shows "noloc r = Inr (map_of r ''lat'' = Some PNone)"
  using assms by (cases rule: proper_location_cases) (auto simp: noloc_def)

lemma randomnize_proper:
  assumes "proper_location r" "map_of r ''lat'' \<noteq> Some PNone"
  shows "\<exists>r'. randomnize_location rt r n = Inr (r', n + 2) \<and> proper_location r'"
  using assms(1)
proof (cases rule: proper_location_cases)
  case unknown
  with assms(2) show ?thesis by simp
next
  case (known la lo a b)
  then show ?thesis
    by (simp add: randomnize_location_def map_of_dict_set proper_location_def)
qed

lemma location_tuple_proper:
  assumes "proper_location r"
  shows "\<exists>loc. location_tuple r = Inr loc"
  using assms by (cases rule: proper_location_cases) (auto simp: location_tuple_def)

lemma dedup_from_total:
  "\<forall>(k, it)\<in>set objs. proper_item it \<Longrightarrow>
   \<exists>objs' n'. dedup_from rt U n objs = Inr (objs', n') \<and> (\<forall>(k, it)\<in>set objs'. proper_item it)"
proof (induction objs arbitrary: U n)
  case Nil
  then show ?case by simp
next
  case (Cons p objs)
  obtain key it where p: "p = (key, it)" by (cases p)
  from Cons.prems p obtain r where it: "it = Rec r" and pr: "proper_location r"
    by (cases it) (auto simp: proper_item_def)
  from Cons.prems have rest: "\<forall>(k, it)\<in>set objs. proper_item it" by simp
  note nl = noloc_proper [OF pr]
  show ?case
  proof (cases "map_of r ''lat'' = Some PNone")
    case True
    from Cons.IH [OF rest, of U n] obtain objs' n' where
      "dedup_from rt U n objs = Inr (objs', n')" "\<forall>(k, it)\<in>set objs'. proper_item it" by blast
    with True nl pr show ?thesis by (simp add: p it proper_item_def)
  next
    case False
    from location_tuple_proper [OF pr] obtain loc where lt: "location_tuple r = Inr loc" by blast
    show ?thesis
    proof (cases "loc_in loc U")
      case True
      from randomnize_proper [OF pr False, of rt n] obtain r' where
        rz: "randomnize_location rt r n = Inr (r', n + 2)" and pr': "proper_location r'" by blast
      from Cons.IH [OF rest, of U "n + 2"] obtain objs' n' where
        "dedup_from rt U (n + 2) objs = Inr (objs', n')" "\<forall>(k, it)\<in>set objs'. proper_item it" by blast
      with True False nl lt rz pr' show ?thesis by (simp add: p it proper_item_def)
    next
      case nin: False
      from Cons.IH [OF rest, of "U @ [(loc, key)]" n] obtain objs' n' where
        "dedup_from rt (U @ [(loc, key)]) n objs = Inr (objs', n')"
        "\<forall>(k, it)\<in>set objs'. proper_item it" by blast
      with nin False nl lt pr show ?thesis by (simp add: p it proper_item_def)
    qed
  qed
qed


lemma archive_data_all_records:
  "archive_data objs = Inr d \<Longrightarrow> \<forall>(k, it)\<in>set objs. \<exists>r. it = Rec r"
proof (induction objs arbitrary: d)
  case Nil
  then show ?case by simp
next
  case (Cons p objs)
  obtain key it where p: "p = (key, it)" by (cases p)
  show ?case
  proof (cases it)
    case (Scalar v)
    with Cons.prems p show ?thesis by simp
  next
    case (Rec r)
    with Cons.prems p obtain d0 where "archive_data objs = Inr d0"
      by (auto split: sum.splits)
    from Cons.IH [OF this] Rec p show ?thesis by simp
  qed
qed

section \<open>The team pipeline, step by step\<close>





lemma resolve_teams_index:
  "resolve_teams self rt tms w = Inr (tms1, w1) \<Longrightarrow>
   length tms1 = length tms \<and>
   (\<forall>i<length tms. fst (tms1 ! i) = fst (tms ! i) \<and>
      (\<exists>wa wb. locate_team self rt (fst (tms ! i)) (snd (tms ! i)) wa = Inr (snd (tms1 ! i), wb)))"
proof (induction tms arbitrary: w tms1 w1)
  case Nil
  then show ?case by simp
next
  case (Cons p tms)
  obtain k it where p: "p = (k, it)" by (cases p)
  from Cons.prems p obtain it' wa rest' where
    l: "locate_team self rt k it w = Inr (it', wa)"
    and r: "resolve_teams self rt tms wa = Inr (rest', w1)"
    and t: "tms1 = (k, it') # rest'"
    by (auto split: sum.splits)
  note IH = Cons.IH [OF r]
  have a: "length tms1 = length (p # tms)" using IH t by simp
  have b: "\<forall>i<length (p # tms). fst (tms1 ! i) = fst ((p # tms) ! i) \<and>
      (\<exists>wa wb. locate_team self rt (fst ((p # tms) ! i)) (snd ((p # tms) ! i)) wa
                  = Inr (snd (tms1 ! i), wb))"
  proof (rule allI, rule impI)
    fix i assume i: "i < length (p # tms)"
    show "fst (tms1 ! i) = fst ((p # tms) ! i) \<and>
      (\<exists>wa wb. locate_team self rt (fst ((p # tms) ! i)) (snd ((p # tms) ! i)) wa
                  = Inr (snd (tms1 ! i), wb))"
    proof (cases i)
      case 0
      with l t p show ?thesis by auto
    next
      case (Suc j)
      with i have "j < length tms" by simp
      with IH have "fst (rest' ! j) = fst (tms ! j) \<and>
        (\<exists>wa wb. locate_team self rt (fst (tms ! j)) (snd (tms ! j)) wa = Inr (snd (rest' ! j), wb))"
        by blast
      with Suc t show ?thesis by simp
    qed
  qed
  from a b show ?case by (rule conjI)
qed

lemma populate_team_Inr:
  assumes "populate_team_locations self rt tms year w = Inr (tms', w')"
  shows "\<exists>tms1 w1 n' d. resolve_teams self rt tms w = Inr (tms1, w1)
           \<and> dedup_from rt [] (draws w1) tms1 = Inr (tms', n')
           \<and> archive_data tms' = Inr d
           \<and> write_json (team_file year) d (w1\<lparr>draws := n'\<rparr>) = Inr w'"
  using assms
  by (auto simp: populate_team_locations_def dedup_locations_def save_team_archive_def
      split: sum.splits)

lemma dedup_from_unchanged:
  assumes dd: "dedup_from rt U n objs = Inr (objs', n')"
    and i: "i < length objs" and nd: "\<not> dup_in U (take i objs) (snd (objs ! i))"
  shows "objs' ! i = objs ! i"
proof -
  from dedup_from_spec [OF dd]
  have "\<forall>i<length objs. fst (objs' ! i) = fst (objs ! i) \<and>
      (if dup_in U (take i objs) (snd (objs ! i))
       then (\<exists>r r' m. snd (objs ! i) = Rec r \<and> snd (objs' ! i) = Rec r'
               \<and> randomnize_location rt r m = Inr (r', m + 2))
       else snd (objs' ! i) = snd (objs ! i))"
    by (rule conjunct2)
  with i have "fst (objs' ! i) = fst (objs ! i) \<and>
      (if dup_in U (take i objs) (snd (objs ! i))
       then (\<exists>r r' m. snd (objs ! i) = Rec r \<and> snd (objs' ! i) = Rec r'
               \<and> randomnize_location rt r m = Inr (r', m + 2))
       else snd (objs' ! i) = snd (objs ! i))"
    by blast
  with nd show ?thesis by (simp add: prod_eq_iff)
qed



lemma populate_twin_teams:
  "populate_team_locations twin_overrides shifting_runtime bare_teams 2024 empty_world =
     Inr ([(''frc1'', Rec [(''key'', PStr ''frc1''), (''lat'', PFloat 10), (''lng'', PFloat 20)]),
          (''frc2'', Rec [(''key'', PStr ''frc2''), (''lat'', PFloat (10001 / 1000)), (''lng'', PFloat (20001 / 1000))])],
          \<lparr>archive_dir = [(''all_team_locations_2024.json'',
            JsonFile [(''frc1'', [(''lat'', PFloat 10), (''lng'', PFloat 20)]),
                      (''frc2'', [(''lat'', PFloat (10001 / 1000)), (''lng'', PFloat (20001 / 1000))])])],
          calls = [], draws = 2\<rparr>)"
  by (simp add: populate_team_locations_def dedup_locations_def save_team_archive_def locate_team_def dict_update_def shifting_runtime_def empty_world_def noloc_def location_tuple_def loc_in_def loc_eq_def py_eq_def randomnize_location_def write_json_def team_file_2024 twin_overrides_def bare_teams_def)

lemma populate_twin_events:
  "populate_event_locations twin_overrides shifting_runtime bare_events empty_world =
     Inr ([(''2024txaus'', Rec [(''key'', PStr ''2024txaus''), (''lat'', PFloat 10), (''lng'', PFloat 20)]),
          (''2024txdal'', Rec [(''key'', PStr ''2024txdal''), (''lat'', PFloat (10001 / 1000)),
                               (''lng'', PFloat (20001 / 1000))])],
          \<lparr>archive_dir = [(''all_event_locations.json'',
            JsonFile [(''2024txaus'', [(''lat'', PFloat 10), (''lng'', PFloat 20)]),
                      (''2024txdal'', [(''lat'', PFloat 10), (''lng'', PFloat 20)])])],
          calls = [], draws = 2\<rparr>)"
  by (simp add: populate_event_locations_def events_loop.simps locate_event_def save_event_archive_def
      dedup_locations_def dict_update_def shifting_runtime_def empty_world_def noloc_def
      location_tuple_def loc_in_def loc_eq_def py_eq_def randomnize_location_def write_json_def
      twin_overrides_def bare_events_def)

lemma loop_twin_events:
  "events_loop twin_overrides 0 bare_events empty_world =
     Inr ([(''2024txaus'', Rec [(''key'', PStr ''2024txaus''), (''lat'', PFloat 10), (''lng'', PFloat 20)]),
          (''2024txdal'', Rec [(''key'', PStr ''2024txdal''), (''lat'', PFloat 10), (''lng'', PFloat 20)])], empty_world)"
  by (simp add: events_loop.simps locate_event_def dict_update_def empty_world_def noloc_def
      twin_overrides_def bare_events_def)




section \<open>Provider failures\<close>



section \<open>Override precedence\<close>

text \<open>
  Claim C3, as stated, fails: two teams with the same override. The second one is in
  the override map and ends with coordinates that are not those of its override,
  because the deduplication pass perturbs it.
\<close>

theorem override_precedence_broken_by_dedup:
  "map_of (teams twin_overrides) ''frc2'' = Some [(''lat'', PFloat 10), (''lng'', PFloat 20)]
   \<and> populate_team_locations twin_overrides shifting_runtime bare_teams 2024 empty_world =
     Inr ([(''frc1'', Rec [(''key'', PStr ''frc1''), (''lat'', PFloat 10), (''lng'', PFloat 20)]),
          (''frc2'', Rec [(''key'', PStr ''frc2''), (''lat'', PFloat (10001 / 1000)), (''lng'', PFloat (20001 / 1000))])],
          \<lparr>archive_dir = [(''all_team_locations_2024.json'',
            JsonFile [(''frc1'', [(''lat'', PFloat 10), (''lng'', PFloat 20)]),
                      (''frc2'', [(''lat'', PFloat (10001 / 1000)), (''lng'', PFloat (20001 / 1000))])])],
          calls = [], draws = 2\<rparr>)
   \<and> PFloat (10001 / 1000) \<noteq> PFloat 10 \<and> PFloat (20001 / 1000) \<noteq> PFloat 20"
proof -
  have a: "map_of (teams twin_overrides) ''frc2'' = Some [(''lat'', PFloat 10), (''lng'', PFloat 20)]"
    by (simp add: twin_overrides_def)
  have b: "PFloat (10001 / 1000) \<noteq> PFloat 10 \<and> PFloat (20001 / 1000) \<noteq> PFloat 20" by simp
  show ?thesis by (rule conjI [OF a conjI [OF populate_twin_teams b]])
qed


text \<open>
  Claim C3, amended. For a team whose identifier is in the override map, the record
  after the resolution loop is the supplied record updated with the override, whatever
  the archive and the provider hold: every field of the override is in it with the
  value of the override. After the deduplication pass the record is still that one
  when no entity iterated before it has an equal location. When one has, the record
  keeps its identifier and its other fields, and its \<^verbatim>\<open>lat\<close> and \<^verbatim>\<open>lng\<close> are two
  successive draws of \<^verbatim>\<open>random.gauss\<close> around the coordinates the record had after
  the override, with deviation \<open>0.001\<close>.
\<close>

theorem override_precedence_up_to_dedup:
  assumes pop: "populate_team_locations self rt tms year w = Inr (tms', w')"
    and i: "i < length tms" and ti: "tms ! i = (k, Rec r)"
    and ov: "map_of (teams self) k = Some ov" and dist: "distinct (map fst ov)"
  shows "(\<exists>tms1 w1. resolve_teams self rt tms w = Inr (tms1, w1)
       \<and> tms1 ! i = (k, Rec (dict_update r ov))
       \<and> (\<forall>f v. map_of ov f = Some v \<longrightarrow> map_of (dict_update r ov) f = Some v)
       \<and> (\<not> collides (take i tms1) (snd (tms1 ! i)) \<longrightarrow> tms' ! i = (k, Rec (dict_update r ov)))
       \<and> (collides (take i tms1) (snd (tms1 ! i)) \<longrightarrow>
            (\<exists>r' la lo a b m. tms' ! i = (k, Rec r')
               \<and> map_of (dict_update r ov) ''lat'' = Some la
               \<and> map_of (dict_update r ov) ''lng'' = Some lo
               \<and> num_val la = Some a \<and> num_val lo = Some b
               \<and> map_of r' ''lat'' = Some (PFloat (gauss rt m a (1 / 1000)))
               \<and> map_of r' ''lng'' = Some (PFloat (gauss rt (m + 1) b (1 / 1000)))
               \<and> (\<forall>f. f \<noteq> ''lat'' \<and> f \<noteq> ''lng''
                      \<longrightarrow> map_of r' f = map_of (dict_update r ov) f))))"
proof -
  from populate_team_Inr [OF pop] obtain tms1 w1 n' where
    res: "resolve_teams self rt tms w = Inr (tms1, w1)"
    and dd: "dedup_from rt [] (draws w1) tms1 = Inr (tms', n')" by blast
  from resolve_teams_index [OF res] i ti obtain wa wb where
    len: "length tms1 = length tms" and k1: "fst (tms1 ! i) = k"
    and l: "locate_team self rt k (Rec r) wa = Inr (snd (tms1 ! i), wb)"
    by fastforce
  from l ov have s1: "snd (tms1 ! i) = Rec (dict_update r ov)" by (simp add: locate_team_def)
  with k1 have t1: "tms1 ! i = (k, Rec (dict_update r ov))" by (simp add: prod_eq_iff)
  have f: "\<forall>f v. map_of ov f = Some v \<longrightarrow> map_of (dict_update r ov) f = Some v"
    by (simp add: map_of_dict_update map_of_rev_distinct [OF dist])
  from i len have i1: "i < length tms1" by simp
  have u: "\<not> collides (take i tms1) (snd (tms1 ! i)) \<longrightarrow> tms' ! i = (k, Rec (dict_update r ov))"
  proof
    assume "\<not> collides (take i tms1) (snd (tms1 ! i))"
    then have nd: "\<not> dup_in [] (take i tms1) (snd (tms1 ! i))" by (simp add: collides_def)
    from dedup_from_unchanged [OF dd i1 nd] t1 show "tms' ! i = (k, Rec (dict_update r ov))"
      by simp
  qed
  have c: "collides (take i tms1) (snd (tms1 ! i)) \<longrightarrow>
            (\<exists>r' la lo a b m. tms' ! i = (k, Rec r')
               \<and> map_of (dict_update r ov) ''lat'' = Some la
               \<and> map_of (dict_update r ov) ''lng'' = Some lo
               \<and> num_val la = Some a \<and> num_val lo = Some b
               \<and> map_of r' ''lat'' = Some (PFloat (gauss rt m a (1 / 1000)))
               \<and> map_of r' ''lng'' = Some (PFloat (gauss rt (m + 1) b (1 / 1000)))
               \<and> (\<forall>f. f \<noteq> ''lat'' \<and> f \<noteq> ''lng''
                      \<longrightarrow> map_of r' f = map_of (dict_update r ov) f))"
  proof
    assume "collides (take i tms1) (snd (tms1 ! i))"
    then have du: "dup_in [] (take i tms1) (snd (tms1 ! i))" by (simp add: collides_def)
    from dedup_from_spec [OF dd]
    have "\<forall>i<length tms1. fst (tms' ! i) = fst (tms1 ! i) \<and>
      (if dup_in [] (take i tms1) (snd (tms1 ! i))
       then (\<exists>r r' m. snd (tms1 ! i) = Rec r \<and> snd (tms' ! i) = Rec r'
               \<and> randomnize_location rt r m = Inr (r', m + 2))
       else snd (tms' ! i) = snd (tms1 ! i))"
      by (rule conjunct2)
    with i1 have "fst (tms' ! i) = fst (tms1 ! i) \<and>
      (if dup_in [] (take i tms1) (snd (tms1 ! i))
       then (\<exists>r r' m. snd (tms1 ! i) = Rec r \<and> snd (tms' ! i) = Rec r'
               \<and> randomnize_location rt r m = Inr (r', m + 2))
       else snd (tms' ! i) = snd (tms1 ! i))"
      by blast
    with du have kf: "fst (tms' ! i) = fst (tms1 ! i)"
      and ex: "\<exists>r r' m. snd (tms1 ! i) = Rec r \<and> snd (tms' ! i) = Rec r'
               \<and> randomnize_location rt r m = Inr (r', m + 2)"
      by (auto split: if_splits)
    from ex obtain r0 r' m where r0: "snd (tms1 ! i) = Rec r0" and r': "snd (tms' ! i) = Rec r'"
      and rz0: "randomnize_location rt r0 m = Inr (r', m + 2)"
      by blast
    from r0 s1 have e0: "r0 = dict_update r ov" by simp
    from rz0 have rz: "randomnize_location rt (dict_update r ov) m = Inr (r', m + 2)"
      unfolding e0 .
    from randomnize_location_Inr(2) [OF rz] obtain la lo a b where
      la: "map_of (dict_update r ov) ''lat'' = Some la"
      and lo: "map_of (dict_update r ov) ''lng'' = Some lo"
      and a: "num_val la = Some a" and b: "num_val lo = Some b"
      and eq: "r' = dict_set ''lng'' (PFloat (gauss rt (m + 1) b (1 / 1000)))
                    (dict_set ''lat'' (PFloat (gauss rt m a (1 / 1000))) (dict_update r ov))"
      by blast
    have 1: "map_of r' ''lat'' = Some (PFloat (gauss rt m a (1 / 1000)))"
      unfolding eq by (simp add: map_of_dict_set)
    have 2: "map_of r' ''lng'' = Some (PFloat (gauss rt (m + 1) b (1 / 1000)))"
      unfolding eq by (simp add: map_of_dict_set)
    have 3: "\<forall>f. f \<noteq> ''lat'' \<and> f \<noteq> ''lng'' \<longrightarrow> map_of r' f = map_of (dict_update r ov) f"
      unfolding eq by (simp add: map_of_dict_set)
    from kf k1 r' have t: "tms' ! i = (k, Rec r')" by (simp add: prod_eq_iff)
    show "\<exists>r' la lo a b m. tms' ! i = (k, Rec r')
               \<and> map_of (dict_update r ov) ''lat'' = Some la
               \<and> map_of (dict_update r ov) ''lng'' = Some lo
               \<and> num_val la = Some a \<and> num_val lo = Some b
               \<and> map_of r' ''lat'' = Some (PFloat (gauss rt m a (1 / 1000)))
               \<and> map_of r' ''lng'' = Some (PFloat (gauss rt (m + 1) b (1 / 1000)))
               \<and> (\<forall>f. f \<noteq> ''lat'' \<and> f \<noteq> ''lng''
                      \<longrightarrow> map_of r' f = map_of (dict_update r ov) f)"
      by (intro exI, rule conjI [OF t conjI [OF la conjI [OF lo conjI [OF a conjI [OF b
            conjI [OF 1 conjI [OF 2 3]]]]]]])
  qed
  show ?thesis
    by (intro exI, rule conjI [OF res conjI [OF t1 conjI [OF f conjI [OF u c]]]])
qed


lemma resolve_twin_teams:
  "resolve_teams twin_overrides shifting_runtime bare_teams empty_world =
     Inr ([(''frc1'', Rec [(''key'', PStr ''frc1''), (''lat'', PFloat 10), (''lng'', PFloat 20)]),
          (''frc2'', Rec [(''key'', PStr ''frc2''), (''lat'', PFloat 10), (''lng'', PFloat 20)])], empty_world)"
  by (simp add: locate_team_def dict_update_def shifting_runtime_def empty_world_def noloc_def
      twin_overrides_def bare_teams_def)

lemma collides_twin_teams:
  "collides (take 1 [(''frc1'', Rec [(''key'', PStr ''frc1''), (''lat'', PFloat 10), (''lng'', PFloat 20)]),
          (''frc2'', Rec [(''key'', PStr ''frc2''), (''lat'', PFloat 10), (''lng'', PFloat 20)])])
     (snd ([(''frc1'', Rec [(''key'', PStr ''frc1''), (''lat'', PFloat 10), (''lng'', PFloat 20)]),
          (''frc2'', Rec [(''key'', PStr ''frc2''), (''lat'', PFloat 10), (''lng'', PFloat 20)])] ! 1))"
  by (simp add: collides_def dup_in_def loc_of_def loc_in_def loc_eq_def py_eq_def)

theorem override_precedence_witness:
  "populate_team_locations twin_overrides shifting_runtime bare_teams 2024 empty_world =
     Inr ([(''frc1'', Rec [(''key'', PStr ''frc1''), (''lat'', PFloat 10), (''lng'', PFloat 20)]),
          (''frc2'', Rec [(''key'', PStr ''frc2''), (''lat'', PFloat (10001 / 1000)), (''lng'', PFloat (20001 / 1000))])],
          \<lparr>archive_dir = [(''all_team_locations_2024.json'',
            JsonFile [(''frc1'', [(''lat'', PFloat 10), (''lng'', PFloat 20)]),
                      (''frc2'', [(''lat'', PFloat (10001 / 1000)), (''lng'', PFloat (20001 / 1000))])])],
          calls = [], draws = 2\<rparr>)
   \<and> 1 < length bare_teams
   \<and> bare_teams ! 1 = (''frc2'', Rec [(''key'', PStr ''frc2'')])
   \<and> map_of (teams twin_overrides) ''frc2'' = Some [(''lat'', PFloat 10), (''lng'', PFloat 20)]
   \<and> distinct (map fst [(''lat'', PFloat 10), (''lng'', PFloat (20::real))])
   \<and> resolve_teams twin_overrides shifting_runtime bare_teams empty_world =
     Inr ([(''frc1'', Rec [(''key'', PStr ''frc1''), (''lat'', PFloat 10), (''lng'', PFloat 20)]),
          (''frc2'', Rec [(''key'', PStr ''frc2''), (''lat'', PFloat 10), (''lng'', PFloat 20)])], empty_world)
   \<and> collides (take 1 [(''frc1'', Rec [(''key'', PStr ''frc1''), (''lat'', PFloat 10), (''lng'', PFloat 20)]),
          (''frc2'', Rec [(''key'', PStr ''frc2''), (''lat'', PFloat 10), (''lng'', PFloat 20)])])
     (snd ([(''frc1'', Rec [(''key'', PStr ''frc1''), (''lat'', PFloat 10), (''lng'', PFloat 20)]),
          (''frc2'', Rec [(''key'', PStr ''frc2''), (''lat'', PFloat 10), (''lng'', PFloat 20)])] ! 1))
   \<and> (\<exists>tms1 w1. resolve_teams twin_overrides shifting_runtime bare_teams empty_world = Inr (tms1, w1)
       \<and> tms1 ! 1 = (''frc2'', Rec (dict_update [(''key'', PStr ''frc2'')] [(''lat'', PFloat 10), (''lng'', PFloat 20)]))
       \<and> (\<forall>f v. map_of [(''lat'', PFloat 10), (''lng'', PFloat 20)] f = Some v \<longrightarrow> map_of (dict_update [(''key'', PStr ''frc2'')] [(''lat'', PFloat 10), (''lng'', PFloat 20)]) f = Some v)
       \<and> (\<not> collides (take 1 tms1) (snd (tms1 ! 1)) \<longrightarrow> [(''frc1'', Rec [(''key'', PStr ''frc1''), (''lat'', PFloat 10), (''lng'', PFloat 20)]),
          (''frc2'', Rec [(''key'', PStr ''frc2''), (''lat'', PFloat (10001 / 1000)), (''lng'', PFloat (20001 / 1000))])] ! 1 = (''frc2'', Rec (dict_update [(''key'', PStr ''frc2'')] [(''lat'', PFloat 10), (''lng'', PFloat 20)])))
       \<and> (collides (take 1 tms1) (snd (tms1 ! 1)) \<longrightarrow>
            (\<exists>r' la lo a b m. [(''frc1'', Rec [(''key'', PStr ''frc1''), (''lat'', PFloat 10), (''lng'', PFloat 20)]),
          (''frc2'', Rec [(''key'', PStr ''frc2''), (''lat'', PFloat (10001 / 1000)), (''lng'', PFloat (20001 / 1000))])] ! 1 = (''frc2'', Rec r')
               \<and> map_of (dict_update [(''key'', PStr ''frc2'')] [(''lat'', PFloat 10), (''lng'', PFloat 20)]) ''lat'' = Some la
               \<and> map_of (dict_update [(''key'', PStr ''frc2'')] [(''lat'', PFloat 10), (''lng'', PFloat 20)]) ''lng'' = Some lo
               \<and> num_val la = Some a \<and> num_val lo = Some b
               \<and> map_of r' ''lat'' = Some (PFloat (gauss shifting_runtime m a (1 / 1000)))
               \<and> map_of r' ''lng'' = Some (PFloat (gauss shifting_runtime (m + 1) b (1 / 1000)))
               \<and> (\<forall>f. f \<noteq> ''lat'' \<and> f \<noteq> ''lng''
                      \<longrightarrow> map_of r' f = map_of (dict_update [(''key'', PStr ''frc2'')] [(''lat'', PFloat 10), (''lng'', PFloat 20)]) f))))"
proof -
  have h2: "1 < length bare_teams" by (simp add: bare_teams_def)
  have h3: "bare_teams ! 1 = (''frc2'', Rec [(''key'', PStr ''frc2'')])" by (simp add: bare_teams_def)
  have h4: "map_of (teams twin_overrides) ''frc2'' = Some [(''lat'', PFloat 10), (''lng'', PFloat 20)]"
    by (simp add: twin_overrides_def)
  have h5: "distinct (map fst [(''lat'', PFloat 10), (''lng'', PFloat (20::real))])" by simp
  note c = override_precedence_up_to_dedup [OF populate_twin_teams h2 h3 h4 h5]
  show ?thesis
    by (rule conjI [OF populate_twin_teams conjI [OF h2 conjI [OF h3 conjI [OF h4 conjI [OF h5
          conjI [OF resolve_twin_teams conjI [OF collides_twin_teams c]]]]]]])
qed


section \<open>Order of saving and deduplication\<close>

lemma dedup_locations_archive_dir:
  "dedup_locations rt objs w = Inr (objs', w') \<Longrightarrow> archive_dir w' = archive_dir w"
  by (auto simp: dedup_locations_def split: sum.splits)


text \<open>
  Claim C5. When \<^verbatim>\<open>populate_team_locations\<close> returns, the team archive file holds
  the archive data of the batch it returns, which is the batch after deduplication.
  When \<^verbatim>\<open>populate_event_locations\<close> returns, the event archive file holds the archive
  data of the batch as the resolution loop left it, and the batch it returns is the
  deduplication of that batch, run after the file was written.
\<close>

theorem archive_order_differs:
  "(populate_team_locations self rt tms year w = Inr (tms', wt') \<longrightarrow>
      (\<exists>d. archive_data tms' = Inr d
            \<and> map_of (archive_dir wt') (team_file year) = Some (JsonFile d)))
   \<and> (populate_event_locations self rt evs w = Inr (evs', we') \<longrightarrow>
      (\<exists>evs1 w1 w2 d. events_loop self 0 evs w = Inr (evs1, w1)
            \<and> archive_data evs1 = Inr d
            \<and> write_json ''all_event_locations.json'' d w1 = Inr w2
            \<and> map_of (archive_dir we') ''all_event_locations.json'' = Some (JsonFile d)
            \<and> dedup_locations rt evs1 w2 = Inr (evs', we')))"
proof (rule conjI; rule impI)
  assume "populate_team_locations self rt tms year w = Inr (tms', wt')"
  from populate_team_Inr [OF this] obtain w1 n' d where
    ad: "archive_data tms' = Inr d"
    and wj: "write_json (team_file year) d (w1\<lparr>draws := n'\<rparr>) = Inr wt'" by blast
  from write_json_Inr [OF wj] ad
  show "(\<exists>d. archive_data tms' = Inr d
            \<and> map_of (archive_dir wt') (team_file year) = Some (JsonFile d))" by blast
next
  assume "populate_event_locations self rt evs w = Inr (evs', we')"
  then obtain evs1 w1 w2 d where
    lp: "events_loop self 0 evs w = Inr (evs1, w1)"
    and ad: "archive_data evs1 = Inr d"
    and wj: "write_json ''all_event_locations.json'' d w1 = Inr w2"
    and dd: "dedup_locations rt evs1 w2 = Inr (evs', we')"
    by (auto simp: populate_event_locations_def save_event_archive_def split: sum.splits)
  from write_json_Inr [OF wj] dedup_locations_archive_dir [OF dd]
  have "map_of (archive_dir we') ''all_event_locations.json'' = Some (JsonFile d)" by simp
  with lp ad wj dd
  show "(\<exists>evs1 w1 w2 d. events_loop self 0 evs w = Inr (evs1, w1)
            \<and> archive_data evs1 = Inr d
            \<and> write_json ''all_event_locations.json'' d w1 = Inr w2
            \<and> map_of (archive_dir we') ''all_event_locations.json'' = Some (JsonFile d)
            \<and> dedup_locations rt evs1 w2 = Inr (evs', we'))" by blast
qed


theorem archive_order_witness:
  "populate_team_locations twin_overrides shifting_runtime bare_teams 2024 empty_world =
     Inr ([(''frc1'', Rec [(''key'', PStr ''frc1''), (''lat'', PFloat 10), (''lng'', PFloat 20)]),
          (''frc2'', Rec [(''key'', PStr ''frc2''), (''lat'', PFloat (10001 / 1000)), (''lng'', PFloat (20001 / 1000))])],
          \<lparr>archive_dir = [(''all_team_locations_2024.json'',
            JsonFile [(''frc1'', [(''lat'', PFloat 10), (''lng'', PFloat 20)]),
                      (''frc2'', [(''lat'', PFloat (10001 / 1000)), (''lng'', PFloat (20001 / 1000))])])],
          calls = [], draws = 2\<rparr>)
   \<and> populate_event_locations twin_overrides shifting_runtime bare_events empty_world =
     Inr ([(''2024txaus'', Rec [(''key'', PStr ''2024txaus''), (''lat'', PFloat 10), (''lng'', PFloat 20)]),
          (''2024txdal'', Rec [(''key'', PStr ''2024txdal''), (''lat'', PFloat (10001 / 1000)),
                               (''lng'', PFloat (20001 / 1000))])],
          \<lparr>archive_dir = [(''all_event_locations.json'',
            JsonFile [(''2024txaus'', [(''lat'', PFloat 10), (''lng'', PFloat 20)]),
                      (''2024txdal'', [(''lat'', PFloat 10), (''lng'', PFloat 20)])])],
          calls = [], draws = 2\<rparr>)
   \<and> (\<exists>d. archive_data 
        [(''frc1'', Rec [(''key'', PStr ''frc1''), (''lat'', PFloat 10), (''lng'', PFloat 20)]),
          (''frc2'', Rec [(''key'', PStr ''frc2''), (''lat'', PFloat (10001 / 1000)), (''lng'', PFloat (20001 / 1000))])]
        = Inr d
            \<and> map_of (archive_dir 
        \<lparr>archive_dir = [(''all_team_locations_2024.json'',
            JsonFile [(''frc1'', [(''lat'', PFloat 10), (''lng'', PFloat 20)]),
                      (''frc2'', [(''lat'', PFloat (10001 / 1000)), (''lng'', PFloat (20001 / 1000))])])],
          calls = [], draws = 2\<rparr>
       ) (team_file 2024) = Some (JsonFile d))
   \<and> (\<exists>evs1 w1 w2 d. events_loop twin_overrides 0 bare_events empty_world = Inr (evs1, w1)
            \<and> archive_data evs1 = Inr d
            \<and> write_json ''all_event_locations.json'' d w1 = Inr w2
            \<and> map_of (archive_dir 
        \<lparr>archive_dir = [(''all_event_locations.json'',
            JsonFile [(''2024txaus'', [(''lat'', PFloat 10), (''lng'', PFloat 20)]),
                      (''2024txdal'', [(''lat'', PFloat 10), (''lng'', PFloat 20)])])],
          calls = [], draws = 2\<rparr>
       ) ''all_event_locations.json'' = Some (JsonFile d)
            \<and> dedup_locations shifting_runtime evs1 w2 = Inr (
        [(''2024txaus'', Rec [(''key'', PStr ''2024txaus''), (''lat'', PFloat 10), (''lng'', PFloat 20)]),
          (''2024txdal'', Rec [(''key'', PStr ''2024txdal''), (''lat'', PFloat (10001 / 1000)),
                               (''lng'', PFloat (20001 / 1000))])]
       , 
        \<lparr>archive_dir = [(''all_event_locations.json'',
            JsonFile [(''2024txaus'', [(''lat'', PFloat 10), (''lng'', PFloat 20)]),
                      (''2024txdal'', [(''lat'', PFloat 10), (''lng'', PFloat 20)])])],
          calls = [], draws = 2\<rparr>
       ))
   \<and> archive_data
        [(''frc1'', Rec [(''key'', PStr ''frc1''), (''lat'', PFloat 10), (''lng'', PFloat 20)]),
          (''frc2'', Rec [(''key'', PStr ''frc2''), (''lat'', PFloat (10001 / 1000)), (''lng'', PFloat (20001 / 1000))])]
      = Inr [(''frc1'', [(''lat'', PFloat 10), (''lng'', PFloat 20)]),
             (''frc2'', [(''lat'', PFloat (10001 / 1000)), (''lng'', PFloat (20001 / 1000))])]
   \<and> events_loop twin_overrides 0 bare_events empty_world =
     Inr ([(''2024txaus'', Rec [(''key'', PStr ''2024txaus''), (''lat'', PFloat 10), (''lng'', PFloat 20)]),
          (''2024txdal'', Rec [(''key'', PStr ''2024txdal''), (''lat'', PFloat 10), (''lng'', PFloat 20)])], empty_world)"
proof -
  note t = archive_order_differs [of twin_overrides shifting_runtime bare_teams 2024 empty_world
      _ _ bare_events]
  from t [THEN conjunct1] populate_twin_teams
  have a: "(\<exists>d. archive_data 
        [(''frc1'', Rec [(''key'', PStr ''frc1''), (''lat'', PFloat 10), (''lng'', PFloat 20)]),
          (''frc2'', Rec [(''key'', PStr ''frc2''), (''lat'', PFloat (10001 / 1000)), (''lng'', PFloat (20001 / 1000))])]
        = Inr d
            \<and> map_of (archive_dir 
        \<lparr>archive_dir = [(''all_team_locations_2024.json'',
            JsonFile [(''frc1'', [(''lat'', PFloat 10), (''lng'', PFloat 20)]),
                      (''frc2'', [(''lat'', PFloat (10001 / 1000)), (''lng'', PFloat (20001 / 1000))])])],
          calls = [], draws = 2\<rparr>
       ) (team_file 2024) = Some (JsonFile d))"
    by (rule mp)
  from t [THEN conjunct2] populate_twin_events
  have b: "(\<exists>evs1 w1 w2 d. events_loop twin_overrides 0 bare_events empty_world = Inr (evs1, w1)
            \<and> archive_data evs1 = Inr d
            \<and> write_json ''all_event_locations.json'' d w1 = Inr w2
            \<and> map_of (archive_dir 
        \<lparr>archive_dir = [(''all_event_locations.json'',
            JsonFile [(''2024txaus'', [(''lat'', PFloat 10), (''lng'', PFloat 20)]),
                      (''2024txdal'', [(''lat'', PFloat 10), (''lng'', PFloat 20)])])],
          calls = [], draws = 2\<rparr>
       ) ''all_event_locations.json'' = Some (JsonFile d)
            \<and> dedup_locations shifting_runtime evs1 w2 = Inr (
        [(''2024txaus'', Rec [(''key'', PStr ''2024txaus''), (''lat'', PFloat 10), (''lng'', PFloat 20)]),
          (''2024txdal'', Rec [(''key'', PStr ''2024txdal''), (''lat'', PFloat (10001 / 1000)),
                               (''lng'', PFloat (20001 / 1000))])]
       , 
        \<lparr>archive_dir = [(''all_event_locations.json'',
            JsonFile [(''2024txaus'', [(''lat'', PFloat 10), (''lng'', PFloat 20)]),
                      (''2024txdal'', [(''lat'', PFloat 10), (''lng'', PFloat 20)])])],
          calls = [], draws = 2\<rparr>
       ))"
    by (rule mp)
  have c: "archive_data
        [(''frc1'', Rec [(''key'', PStr ''frc1''), (''lat'', PFloat 10), (''lng'', PFloat 20)]),
          (''frc2'', Rec [(''key'', PStr ''frc2''), (''lat'', PFloat (10001 / 1000)), (''lng'', PFloat (20001 / 1000))])]
      = Inr [(''frc1'', [(''lat'', PFloat 10), (''lng'', PFloat 20)]),
             (''frc2'', [(''lat'', PFloat (10001 / 1000)), (''lng'', PFloat (20001 / 1000))])]"
    by (simp add: noloc_def)
  show ?thesis
    by (rule conjI [OF populate_twin_teams conjI [OF populate_twin_events
          conjI [OF a conjI [OF b conjI [OF c loop_twin_events]]]]])
qed

section \<open>Address synthesis of events\<close>

text \<open>
  Claim C6. \<^verbatim>\<open>make_event_address\<close> is meant to join the six fields so that an empty
  field leaves no repeated separator. The code joins the list with single spaces and
  strips the ends only: for a record with a venue and a city and nothing between them,
  the address has two spaces in a row, where \<^verbatim>\<open>make_team_address\<close> on the same kind
  of record yields one.
\<close>

theorem make_event_address_repeats_separator:
  "make_event_address [(''venue'', PStr ''Gym''), (''city'', PStr ''Austin'')]
     = Inr (Some ''Gym  Austin'')
   \<and> make_team_address fmt [(''school_name'', PStr ''Gym''), (''state_prov'', PStr ''Texas'')]
     = Some ''Gym Texas''"
  by (simp add: make_event_address_def make_team_address_def event_fields_def read_def
      notNone_def py_strip_def py_split_def is_space_def)

section \<open>Archived events\<close>

text \<open>
  Claim C1. An event without a location whose identifier is in the event archive should
  get the archived coordinates and not be marked \<^verbatim>\<open>ignore\<close>. Line 214 updates the
  batch instead of the record: the turn of the loop leaves the record without a
  location, marks it \<^verbatim>\<open>ignore\<close> and adds the entries \<^verbatim>\<open>lat\<close> and \<^verbatim>\<open>lng\<close> to
  the batch, and the iterator then raises \<^verbatim>\<open>RuntimeError\<close>.
\<close>

theorem archived_event_not_located:
  "locate_event archived_event_geocoder ''2024txaus'' archived_event
       [(''2024txaus'', Rec archived_event)] empty_world
     = Inr ([(''2024txaus'', Rec [(''key'', PStr ''2024txaus''), (''lat'', PNone),
                                  (''lng'', PNone), (''ignore'', PBool True)]),
             (''lat'', Scalar (PFloat 30)), (''lng'', Scalar (PFloat (- 97)))], empty_world)
   \<and> populate_event_locations archived_event_geocoder rt
       [(''2024txaus'', Rec archived_event)] empty_world = Inl RuntimeError"
  by (simp add: populate_event_locations_def events_loop.simps [of _ 0] locate_event_def
      archived_event_geocoder_def archived_event_def empty_world_def noloc_def dict_update_def)


section \<open>Locations are not half filled\<close>

lemma geolocate_team_proper:
  assumes "geolocate_team self rt r w = Inr (r', w')"
  shows "proper_location r'"
proof -
  from assms have "r' = dict_update r UNKNOWN
      \<or> (\<exists>la lo. r' = dict_update r [(''lat'', PFloat la), (''lng'', PFloat lo)])"
    unfolding geolocate_team_def
    by (simp split: option.splits prod.splits) blast+
  then show ?thesis using proper_UNKNOWN proper_geocoded by blast
qed

lemma geolocate_event_proper:
  assumes "geolocate_event self r w = Inr (r', w')"
  shows "proper_location r'"
proof -
  from assms have "r' = dict_update r UNKNOWN
      \<or> (\<exists>la lo. r' = dict_update r [(''lat'', PFloat la), (''lng'', PFloat lo)])"
    unfolding geolocate_event_def
    by (simp split: option.splits prod.splits sum.splits) blast+
  then show ?thesis using proper_UNKNOWN proper_geocoded by blast
qed

lemma locate_team_proper:
  assumes l: "locate_team self rt k it w = Inr (it', w')"
    and ov: "\<forall>(k, ov)\<in>set (teams self). is_location ov"
    and ar: "\<forall>(k, a)\<in>set (team_archive self). is_location a"
  shows "proper_item it'"
proof (cases "map_of (teams self) k")
  case (Some o1)
  then have "(k, o1) \<in> set (teams self)" by (rule map_of_SomeD)
  with ov have "is_location o1" by auto
  then have p: "proper_location (dict_update r o1)" for r by (rule proper_update_location)
  from l Some obtain r where "it' = Rec (dict_update r o1)"
    by (cases it) (auto simp: locate_team_def)
  with p show ?thesis by (simp add: proper_item_def)
next
  case None
  show ?thesis
  proof (cases "map_of (team_archive self) k")
    case (Some a)
    then have "(k, a) \<in> set (team_archive self)" by (rule map_of_SomeD)
    with ar have "is_location a" by auto
    then have p: "proper_location (dict_update r a)" for r by (rule proper_update_location)
    from l None Some obtain r where "it' = Rec (dict_update r a)"
      by (cases it) (auto simp: locate_team_def)
    with p show ?thesis by (simp add: proper_item_def)
  next
    case n2: None
    from l None n2 obtain r r' w1 where "geolocate_team self rt r w = Inr (r', w1)" "it' = Rec r'"
      by (cases it) (auto simp: locate_team_def split: sum.splits)
    with geolocate_team_proper show ?thesis by (simp add: proper_item_def)
  qed
qed

lemma resolve_teams_proper:
  assumes ov: "\<forall>(k, ov)\<in>set (teams self). is_location ov"
    and ar: "\<forall>(k, a)\<in>set (team_archive self). is_location a"
  shows "resolve_teams self rt tms w = Inr (tms1, w1) \<Longrightarrow> \<forall>(k, it)\<in>set tms1. proper_item it"
proof (induction tms arbitrary: w tms1 w1)
  case Nil
  then show ?case by simp
next
  case (Cons p tms)
  obtain k it where p: "p = (k, it)" by (cases p)
  from Cons.prems p obtain it' wa rest' where
    l: "locate_team self rt k it w = Inr (it', wa)"
    and r: "resolve_teams self rt tms wa = Inr (rest', w1)"
    and t: "tms1 = (k, it') # rest'"
    by (auto split: sum.splits)
  from locate_team_proper [OF l ov ar] Cons.IH [OF r] t show ?case by simp
qed

lemma dedup_from_proper:
  assumes "dedup_from rt U n objs = Inr (objs', n')" and "\<forall>(k, it)\<in>set objs. proper_item it"
  shows "\<forall>(k, it)\<in>set objs'. proper_item it"
proof -
  from dedup_from_total [OF assms(2), of rt U n] obtain o2 n2 where
    "dedup_from rt U n objs = Inr (o2, n2)" and p: "\<forall>(k, it)\<in>set o2. proper_item it" by blast
  with assms(1) have "o2 = objs'" by simp
  with p show ?thesis by simp
qed

lemma populate_team_proper:
  assumes pop: "populate_team_locations self rt tms year w = Inr (tms', w')"
    and ov: "\<forall>(k, ov)\<in>set (teams self). is_location ov"
    and ar: "\<forall>(k, a)\<in>set (team_archive self). is_location a"
  shows "\<forall>(k, it)\<in>set tms'. proper_item it"
proof -
  from populate_team_Inr [OF pop] obtain tms1 w1 n' where
    res: "resolve_teams self rt tms w = Inr (tms1, w1)"
    and dd: "dedup_from rt [] (draws w1) tms1 = Inr (tms', n')" by blast
  from resolve_teams_proper [OF ov ar res] have "\<forall>(k, it)\<in>set tms1. proper_item it" .
  from dedup_from_proper [OF dd this] show ?thesis .
qed

lemma sop_dict_set:
  assumes "\<forall>(k, it)\<in>set evs. scalar_or_proper it" and "scalar_or_proper v"
  shows "\<forall>(k, it)\<in>set (dict_set key v evs). scalar_or_proper it"
proof -
  have "set (dict_set key v evs) \<subseteq> insert (key, v) (set evs)" by (rule set_dict_set)
  with assms show ?thesis by auto
qed

lemma sop_dict_update:
  assumes "\<forall>(k, it)\<in>set evs. scalar_or_proper it" and "\<forall>(k, it)\<in>set other. scalar_or_proper it"
  shows "\<forall>(k, it)\<in>set (dict_update evs other). scalar_or_proper it"
proof -
  have "set (dict_update evs other) \<subseteq> set evs \<union> set other" by (rule set_dict_update)
  with assms show ?thesis by auto
qed

lemma sop_scalars: "\<forall>(k, it)\<in>set (map (\<lambda>(f, v). (f, Scalar v)) a). scalar_or_proper it"
  by (auto simp: scalar_or_proper_def)

lemma enhance_and_geolocate_proper:
  assumes api: "\<forall>r. proper_location r \<longrightarrow>
            (case first_api self r of Inl r' \<Rightarrow> proper_location r' | Inr r' \<Rightarrow> proper_location r')"
    and p: "proper_location r"
    and eg: "enhance_and_geolocate self r w = (r', w')"
  shows "proper_location r'"
proof -
  from api p have c: "case first_api self r of Inl r' \<Rightarrow> proper_location r' | Inr r' \<Rightarrow> proper_location r'"
    by blast
  show ?thesis
  proof (cases "first_api self r")
    case (Inl e1)
    with c have "proper_location e1" by simp
    moreover from eg Inl have "r' = e1" by (simp add: enhance_and_geolocate_def)
    ultimately show ?thesis by simp
  next
    case (Inr e1)
    with c have p1: "proper_location e1" by simp
    show ?thesis
    proof (cases "geolocate_event self e1 w")
      case (Inl err)
      with eg Inr have "r' = e1" by (simp add: enhance_and_geolocate_def)
      with p1 show ?thesis by simp
    next
      case g: (Inr res)
      obtain e2 w2 where res: "res = (e2, w2)" by (cases res)
      with g have g2: "geolocate_event self e1 w = Inr (e2, w2)" by simp
      with eg Inr have "r' = e2" by (simp add: enhance_and_geolocate_def)
      with geolocate_event_proper [OF g2] show ?thesis by simp
    qed
  qed
qed

lemma locate_event_sop:
  assumes le: "locate_event self key event evs w = Inr (evs', w')"
    and ov: "\<forall>(k, ov)\<in>set (events self). is_location ov"
    and api: "\<forall>r. proper_location r \<longrightarrow>
            (case first_api self r of Inl r' \<Rightarrow> proper_location r' | Inr r' \<Rightarrow> proper_location r')"
    and inv: "\<forall>(k, it)\<in>set evs. scalar_or_proper it"
    and pe: "proper_location event"
  shows "\<forall>(k, it)\<in>set evs'. scalar_or_proper it"
proof -
  let ?event1 = "case map_of (events self) key of Some ov \<Rightarrow> dict_update event ov | None \<Rightarrow> event"
  let ?evs1 = "dict_set key (Rec ?event1) evs"
  have p1: "proper_location ?event1"
  proof (cases "map_of (events self) key")
    case None
    with pe show ?thesis by simp
  next
    case (Some o1)
    then have "(key, o1) \<in> set (events self)" by (rule map_of_SomeD)
    with ov have "is_location o1" by auto
    then have "proper_location (dict_update event o1)" by (rule proper_update_location)
    with Some show ?thesis by simp
  qed
  have ign: "scalar_or_proper (Rec (dict_set ''ignore'' (PBool True) r))" if "proper_location r" for r
    using that by (simp add: scalar_or_proper_def proper_dict_set_other)
  from p1 have sp1: "scalar_or_proper (Rec ?event1)" by (simp add: scalar_or_proper_def)
  have s1: "\<forall>(k, it)\<in>set ?evs1. scalar_or_proper it" by (rule sop_dict_set [OF inv sp1])
  define nl1 where "nl1 = (map_of ?event1 ''lat'' = Some PNone)"
  have n1: "noloc ?event1 = Inr nl1" unfolding nl1_def by (rule noloc_proper [OF p1])
  show ?thesis
  proof (cases nl1)
    case False
    with le n1 have "evs' = ?evs1" by (simp add: locate_event_def Let_def)
    with s1 show ?thesis by simp
  next
    case True
    show ?thesis
    proof (cases "map_of (event_archive self) key")
      case (Some a)
      let ?evs2 = "dict_update ?evs1 (map (\<lambda>(f, v). (f, Scalar v)) a)"
      have s2: "\<forall>(k, it)\<in>set ?evs2. scalar_or_proper it"
        by (rule sop_dict_update [OF s1 sop_scalars])
      have s3: "\<forall>(k, it)\<in>set (dict_set key (Rec (dict_set ''ignore'' (PBool True) ?event1)) ?evs2).
                  scalar_or_proper it"
        by (rule sop_dict_set [OF s2 ign [OF p1]])
      from le n1 True Some have "evs' = ?evs2
          \<or> evs' = dict_set key (Rec (dict_set ''ignore'' (PBool True) ?event1)) ?evs2"
        by (simp add: locate_event_def Let_def split: if_splits)
      with s2 s3 show ?thesis by blast
    next
      case None
      show ?thesis
      proof (cases "case map_of ?event1 ''is_official'' of None \<Rightarrow> False | Some v \<Rightarrow> truthy v")
        case off: False
        have s3: "\<forall>(k, it)\<in>set (dict_set key (Rec (dict_set ''ignore'' (PBool True) ?event1)) ?evs1).
                  scalar_or_proper it"
          by (rule sop_dict_set [OF s1 ign [OF p1]])
        from le n1 True None off
        have "evs' = dict_set key (Rec (dict_set ''ignore'' (PBool True) ?event1)) ?evs1"
          by (simp add: locate_event_def Let_def)
        with s3 show ?thesis by simp
      next
        case off: True
        obtain e2 w2 where eg: "enhance_and_geolocate self ?event1 w = (e2, w2)"
          by (cases "enhance_and_geolocate self ?event1 w")
        from enhance_and_geolocate_proper [OF api p1 eg] have p2: "proper_location e2" .
        then have sp2: "scalar_or_proper (Rec e2)" by (simp add: scalar_or_proper_def)
        let ?evs2 = "dict_set key (Rec e2) ?evs1"
        have s2: "\<forall>(k, it)\<in>set ?evs2. scalar_or_proper it" by (rule sop_dict_set [OF s1 sp2])
        have s3: "\<forall>(k, it)\<in>set (dict_set key (Rec (dict_set ''ignore'' (PBool True) e2)) ?evs2).
                  scalar_or_proper it"
          by (rule sop_dict_set [OF s2 ign [OF p2]])
        note n2 = noloc_proper [OF p2]
        from le n1 True None off eg n2 have "evs' = ?evs2
          \<or> evs' = dict_set key (Rec (dict_set ''ignore'' (PBool True) e2)) ?evs2"
          by (simp add: locate_event_def Let_def split: if_splits)
        with s2 s3 show ?thesis by blast
      qed
    qed
  qed
qed

lemma events_loop_sop:
  assumes ov: "\<forall>(k, ov)\<in>set (events self). is_location ov"
    and api: "\<forall>r. proper_location r \<longrightarrow>
            (case first_api self r of Inl r' \<Rightarrow> proper_location r' | Inr r' \<Rightarrow> proper_location r')"
  shows "events_loop self i evs w = Inr (evs', w') \<Longrightarrow>
         \<forall>(k, it)\<in>set evs. scalar_or_proper it \<Longrightarrow>
         \<forall>(k, it)\<in>set evs'. scalar_or_proper it"
  using ov api
proof (induction self i evs w rule: events_loop.induct)
  case (1 self i evs w)
  note run = "1.prems"(1) and inv = "1.prems"(2) and ov = "1.prems"(3) and api = "1.prems"(4)
  show ?case
  proof (cases "length evs \<le> i")
    case True
    with run have "evs' = evs" by (simp add: events_loop.simps [of self i evs w])
    with inv show ?thesis by simp
  next
    case False
    obtain key it where e: "evs ! i = (key, it)" by (cases "evs ! i")
    from False have "evs ! i \<in> set evs" by simp
    with e inv have sp: "scalar_or_proper it" by auto
    show ?thesis
    proof (cases it)
      case (Scalar v)
      with run False e show ?thesis by (simp add: events_loop.simps [of self i evs w])
    next
      case (Rec event)
      with sp have pe: "proper_location event" by (simp add: scalar_or_proper_def)
      show ?thesis
      proof (cases "locate_event self key event evs w")
        case (Inl err)
        with run False e Rec show ?thesis by (simp add: events_loop.simps [of self i evs w])
      next
        case (Inr b)
        obtain evs1 w1 where b: "b = (evs1, w1)" by (cases b)
        with Inr have le: "locate_event self key event evs w = Inr (evs1, w1)" by simp
        from locate_event_sop [OF le ov api inv pe]
        have inv1: "\<forall>(k, it)\<in>set evs1. scalar_or_proper it" .
        show ?thesis
        proof (cases "length evs1 \<noteq> length evs")
          case True
          with run False e Rec le show ?thesis by (simp add: events_loop.simps [of self i evs w])
        next
          case same: False
          with run False e Rec le have run1: "events_loop self (i + 1) evs1 w1 = Inr (evs', w')"
            by (simp add: events_loop.simps [of self i evs w])
          from "1.IH" [OF False e [symmetric] Rec Inr b [symmetric] same run1 inv1 ov api]
          show ?thesis .
        qed
      qed
    qed
  qed
qed

lemma populate_event_proper:
  assumes pop: "populate_event_locations self rt evs w = Inr (evs', w')"
    and ov: "\<forall>(k, ov)\<in>set (events self). is_location ov"
    and api: "\<forall>r. proper_location r \<longrightarrow>
            (case first_api self r of Inl r' \<Rightarrow> proper_location r' | Inr r' \<Rightarrow> proper_location r')"
    and init: "\<forall>(k, it)\<in>set evs. proper_item it"
  shows "\<forall>(k, it)\<in>set evs'. proper_item it"
proof -
  from pop obtain evs1 w1 w2 where
    loop: "events_loop self 0 evs w = Inr (evs1, w1)"
    and sv: "save_event_archive evs1 w1 = Inr w2"
    and dd: "dedup_locations rt evs1 w2 = Inr (evs', w')"
    by (auto simp: populate_event_locations_def split: sum.splits)
  from init have inv: "\<forall>(k, it)\<in>set evs. scalar_or_proper it"
    by (auto simp: proper_item_def scalar_or_proper_def split: item.splits)
  from events_loop_sop [OF ov api loop inv]
  have inv1: "\<forall>(k, it)\<in>set evs1. scalar_or_proper it" .
  from sv obtain d where "archive_data evs1 = Inr d"
    by (auto simp: save_event_archive_def split: sum.splits)
  from archive_data_all_records [OF this] have "\<forall>(k, it)\<in>set evs1. \<exists>r. it = Rec r" .
  with inv1 have p1: "\<forall>(k, it)\<in>set evs1. proper_item it"
    by (fastforce simp: proper_item_def scalar_or_proper_def)
  from dd obtain n' where "dedup_from rt [] (draws w2) evs1 = Inr (evs', n')"
    by (auto simp: dedup_locations_def split: sum.splits)
  from dedup_from_proper [OF this p1] show ?thesis .
qed

text \<open>
  Claim C2, as stated, fails: an override that carries \<^verbatim>\<open>lat\<close> only. The team and
  the event have \<^verbatim>\<open>lat\<close> and \<^verbatim>\<open>lng\<close> null at first; both calls return, and
  the final records have \<^verbatim>\<open>lat\<close> 10 and \<^verbatim>\<open>lng\<close> null.
\<close>

theorem partial_override_half_fills:
  "map_of (teams half_override) ''frc1'' = Some [(''lat'', PFloat 10)]
   \<and> populate_team_locations half_override shifting_runtime unlocated_team 2024 empty_world =
       Inr ([(''frc1'', Rec [(''key'', PStr ''frc1''), (''lat'', PFloat 10), (''lng'', PNone)])],
            \<lparr>archive_dir = [(''all_team_locations_2024.json'', JsonFile [])],
             calls = [], draws = 0\<rparr>)
   \<and> map_of (events half_override) ''2024txaus'' = Some [(''lat'', PFloat 10)]
   \<and> populate_event_locations half_override shifting_runtime unlocated_event empty_world =
       Inr ([(''2024txaus'', Rec [(''key'', PStr ''2024txaus''), (''lat'', PFloat 10), (''lng'', PNone),
                                  (''ignore'', PBool True)])],
            \<lparr>archive_dir = [(''all_event_locations.json'', JsonFile [])],
             calls = [], draws = 0\<rparr>)
   \<and> PFloat 10 \<noteq> PNone"
proof -
  have a: "map_of (teams half_override) ''frc1'' = Some [(''lat'', PFloat 10)]"
    by (simp add: half_override_def)
  have b: "populate_team_locations half_override shifting_runtime unlocated_team 2024 empty_world =
       Inr ([(''frc1'', Rec [(''key'', PStr ''frc1''), (''lat'', PFloat 10), (''lng'', PNone)])],
            \<lparr>archive_dir = [(''all_team_locations_2024.json'', JsonFile [])],
             calls = [], draws = 0\<rparr>)"
    by (simp add: populate_team_locations_def dedup_locations_def save_team_archive_def
        locate_team_def dict_update_def shifting_runtime_def empty_world_def noloc_def
        write_json_def team_file_2024 half_override_def unlocated_team_def)
  have c: "map_of (events half_override) ''2024txaus'' = Some [(''lat'', PFloat 10)]"
    by (simp add: half_override_def)
  have d: "populate_event_locations half_override shifting_runtime unlocated_event empty_world =
       Inr ([(''2024txaus'', Rec [(''key'', PStr ''2024txaus''), (''lat'', PFloat 10), (''lng'', PNone),
                                  (''ignore'', PBool True)])],
            \<lparr>archive_dir = [(''all_event_locations.json'', JsonFile [])],
             calls = [], draws = 0\<rparr>)"
    by (simp add: populate_event_locations_def events_loop.simps locate_event_def
        save_event_archive_def dedup_locations_def dict_update_def shifting_runtime_def
        empty_world_def noloc_def write_json_def half_override_def unlocated_event_def)
  have e: "PFloat 10 \<noteq> PNone" by simp
  show ?thesis by (rule conjI [OF a conjI [OF b conjI [OF c conjI [OF d e]]]])
qed


text \<open>
  Claim C2, amended. When every entry of the override maps and of the team archive is
  a Location (\<^verbatim>\<open>lat\<close> and \<^verbatim>\<open>lng\<close> present, both null or both numbers), every
  event record supplied carries such a pair, and the enrichment of the FIRST API leaves
  such a pair in a record that has one, then every record of a batch that
  \<^verbatim>\<open>populate_team_locations\<close> or \<^verbatim>\<open>populate_event_locations\<close> returns has
  \<^verbatim>\<open>lat\<close> and \<^verbatim>\<open>lng\<close> both null or both numbers. Team records need no
  condition: each branch of the team loop assigns both fields.
\<close>

theorem locations_not_half_filled:
  assumes ovt: "\<forall>(k, ov)\<in>set (teams self). is_location ov"
    and art: "\<forall>(k, a)\<in>set (team_archive self). is_location a"
    and ove: "\<forall>(k, ov)\<in>set (events self). is_location ov"
    and api: "\<forall>r. proper_location r \<longrightarrow>
            (case first_api self r of Inl r' \<Rightarrow> proper_location r' | Inr r' \<Rightarrow> proper_location r')"
    and init: "\<forall>(k, it)\<in>set evs. proper_item it"
  shows "(populate_team_locations self rt tms year wt = Inr (tms', wt')
            \<longrightarrow> (\<forall>(k, it)\<in>set tms'. proper_item it))
       \<and> (populate_event_locations self rt evs we = Inr (evs', we')
            \<longrightarrow> (\<forall>(k, it)\<in>set evs'. proper_item it))"
proof (rule conjI)
  show "populate_team_locations self rt tms year wt = Inr (tms', wt')
            \<longrightarrow> (\<forall>(k, it)\<in>set tms'. proper_item it)"
  proof
    assume "populate_team_locations self rt tms year wt = Inr (tms', wt')"
    from populate_team_proper [OF this ovt art] show "\<forall>(k, it)\<in>set tms'. proper_item it" .
  qed
  show "populate_event_locations self rt evs we = Inr (evs', we')
            \<longrightarrow> (\<forall>(k, it)\<in>set evs'. proper_item it)"
  proof
    assume "populate_event_locations self rt evs we = Inr (evs', we')"
    from populate_event_proper [OF this ove api init] show "\<forall>(k, it)\<in>set evs'. proper_item it" .
  qed
qed


theorem locations_not_half_filled_witness:
  "populate_team_locations twin_overrides shifting_runtime bare_teams 2024 empty_world =
     Inr ([(''frc1'', Rec [(''key'', PStr ''frc1''), (''lat'', PFloat 10), (''lng'', PFloat 20)]),
          (''frc2'', Rec [(''key'', PStr ''frc2''), (''lat'', PFloat (10001 / 1000)), (''lng'', PFloat (20001 / 1000))])],
          \<lparr>archive_dir = [(''all_team_locations_2024.json'',
            JsonFile [(''frc1'', [(''lat'', PFloat 10), (''lng'', PFloat 20)]),
                      (''frc2'', [(''lat'', PFloat (10001 / 1000)), (''lng'', PFloat (20001 / 1000))])])],
          calls = [], draws = 2\<rparr>)
   \<and> list_all (\<lambda>(k, it). proper_item it)
        [(''frc1'', Rec [(''key'', PStr ''frc1''), (''lat'', PFloat 10), (''lng'', PFloat 20)]),
         (''frc2'', Rec [(''key'', PStr ''frc2''), (''lat'', PFloat (10001 / 1000)), (''lng'', PFloat (20001 / 1000))])]
   \<and> populate_event_locations twin_overrides shifting_runtime bare_events empty_world =
     Inr ([(''2024txaus'', Rec [(''key'', PStr ''2024txaus''), (''lat'', PFloat 10), (''lng'', PFloat 20)]),
          (''2024txdal'', Rec [(''key'', PStr ''2024txdal''), (''lat'', PFloat (10001 / 1000)),
                               (''lng'', PFloat (20001 / 1000))])],
          \<lparr>archive_dir = [(''all_event_locations.json'',
            JsonFile [(''2024txaus'', [(''lat'', PFloat 10), (''lng'', PFloat 20)]),
                      (''2024txdal'', [(''lat'', PFloat 10), (''lng'', PFloat 20)])])],
          calls = [], draws = 2\<rparr>)
   \<and> list_all (\<lambda>(k, it). proper_item it)
        [(''2024txaus'', Rec [(''key'', PStr ''2024txaus''), (''lat'', PFloat 10), (''lng'', PFloat 20)]),
         (''2024txdal'', Rec [(''key'', PStr ''2024txdal''), (''lat'', PFloat (10001 / 1000)),
                              (''lng'', PFloat (20001 / 1000))])]
   \<and> list_all (\<lambda>(k, ov). is_location ov) (teams twin_overrides)
   \<and> list_all (\<lambda>(k, a). is_location a) (team_archive twin_overrides)
   \<and> list_all (\<lambda>(k, ov). is_location ov) (events twin_overrides)
   \<and> list_all (\<lambda>(k, it). proper_item it) bare_events"
proof -
  have h1l: "list_all (\<lambda>(k, ov). is_location ov) (teams twin_overrides)"
    by (simp add: twin_overrides_def is_location_def proper_location_def)
  have h2l: "list_all (\<lambda>(k, a). is_location a) (team_archive twin_overrides)"
    by (simp add: twin_overrides_def)
  have h3l: "list_all (\<lambda>(k, ov). is_location ov) (events twin_overrides)"
    by (simp add: twin_overrides_def is_location_def proper_location_def)
  have h5l: "list_all (\<lambda>(k, it). proper_item it) bare_events"
    by (simp add: bare_events_def proper_item_def proper_location_def)
  from h1l have h1: "\<forall>(k, ov)\<in>set (teams twin_overrides). is_location ov"
    by (simp only: list_all_iff)
  from h2l have h2: "\<forall>(k, a)\<in>set (team_archive twin_overrides). is_location a"
    by (simp only: list_all_iff)
  from h3l have h3: "\<forall>(k, ov)\<in>set (events twin_overrides). is_location ov"
    by (simp only: list_all_iff)
  have h4: "\<forall>r. proper_location r \<longrightarrow>
            (case first_api twin_overrides r of Inl r' \<Rightarrow> proper_location r'
             | Inr r' \<Rightarrow> proper_location r')"
    by (simp add: twin_overrides_def)
  from h5l have h5: "\<forall>(k, it)\<in>set bare_events. proper_item it"
    by (simp only: list_all_iff)
  note c = locations_not_half_filled [OF h1 h2 h3 h4 h5]
  from c [THEN conjunct1] populate_twin_teams
  have t: "\<forall>(k, it)\<in>set [(''frc1'', Rec [(''key'', PStr ''frc1''), (''lat'', PFloat 10), (''lng'', PFloat 20)]),
         (''frc2'', Rec [(''key'', PStr ''frc2''), (''lat'', PFloat (10001 / 1000)), (''lng'', PFloat (20001 / 1000))])].
         proper_item it"
    by (rule mp)
  from c [THEN conjunct2] populate_twin_events
  have e: "\<forall>(k, it)\<in>set [(''2024txaus'', Rec [(''key'', PStr ''2024txaus''), (''lat'', PFloat 10), (''lng'', PFloat 20)]),
         (''2024txdal'', Rec [(''key'', PStr ''2024txdal''), (''lat'', PFloat (10001 / 1000)),
                              (''lng'', PFloat (20001 / 1000))])]. proper_item it"
    by (rule mp)
  from t have tl: "list_all (\<lambda>(k, it). proper_item it)
        [(''frc1'', Rec [(''key'', PStr ''frc1''), (''lat'', PFloat 10), (''lng'', PFloat 20)]),
         (''frc2'', Rec [(''key'', PStr ''frc2''), (''lat'', PFloat (10001 / 1000)), (''lng'', PFloat (20001 / 1000))])]"
    by (simp only: list_all_iff)
  from e have el: "list_all (\<lambda>(k, it). proper_item it)
        [(''2024txaus'', Rec [(''key'', PStr ''2024txaus''), (''lat'', PFloat 10), (''lng'', PFloat 20)]),
         (''2024txdal'', Rec [(''key'', PStr ''2024txdal''), (''lat'', PFloat (10001 / 1000)),
                              (''lng'', PFloat (20001 / 1000))])]"
    by (simp only: list_all_iff)
  show ?thesis
    by (rule conjI [OF populate_twin_teams conjI [OF tl conjI [OF populate_twin_events
          conjI [OF el conjI [OF h1l conjI [OF h2l conjI [OF h3l h5l]]]]]]])
qed

end
